theory Spec2Isabelle
  imports
    Main
    "HOL-Library.Word"
    "HOL-Library.Sublist"
    "HOL-Library.Char_ord"
    "HOL-Library.List_Lexorder"
    "HOL-Library.AList"
begin

section \<open>Package ans: the client of the SAP Alert Notification Service\<close>

text \<open>
  The theory embeds \<^verbatim>\<open>pkg/ans/ans.go\<close>: the severity and category constants, the
  translation of logrus levels, the structs with their JSON tags, the two unmarshalling
  helpers and \<^verbatim>\<open>ANS.Send\<close>.
\<close>

subsection \<open>Constants\<close>

definition authHeaderKey :: string where
  "authHeaderKey = ''Authorization''"

definition infoSeverity :: string where
  "infoSeverity = ''INFO''"

definition noticeSeverity :: string where
  "noticeSeverity = ''NOTICE''"

definition warningSeverity :: string where
  "warningSeverity = ''WARNING''"

definition errorSeverity :: string where
  "errorSeverity = ''ERROR''"

definition fatalSeverity :: string where
  "fatalSeverity = ''FATAL''"

definition exceptionCategory :: string where
  "exceptionCategory = ''EXCEPTION''"

definition alertCategory :: string where
  "alertCategory = ''ALERT''"

definition notificationCategory :: string where
  "notificationCategory = ''NOTIFICATION''"

lemmas ans_consts =
  authHeaderKey_def infoSeverity_def noticeSeverity_def warningSeverity_def
  errorSeverity_def fatalSeverity_def exceptionCategory_def alertCategory_def
  notificationCategory_def

subsection \<open>Logrus levels\<close>

text \<open>
  \<^verbatim>\<open>logrus.Level\<close> is declared \<^verbatim>\<open>type Level uint32\<close>, and its constants are numbered by
  \<^verbatim>\<open>iota\<close> from \<^verbatim>\<open>PanicLevel\<close>. A caller can convert any \<^verbatim>\<open>uint32\<close> to a level, so the
  type has \<open>2 ^ 32\<close> values, seven of them named.
\<close>

type_synonym Level = "32 word"

definition PanicLevel :: Level where "PanicLevel = 0"
definition FatalLevel :: Level where "FatalLevel = 1"
definition ErrorLevel :: Level where "ErrorLevel = 2"
definition WarnLevel :: Level where "WarnLevel = 3"
definition InfoLevel :: Level where "InfoLevel = 4"
definition DebugLevel :: Level where "DebugLevel = 5"
definition TraceLevel :: Level where "TraceLevel = 6"

lemmas Level_defs =
  PanicLevel_def FatalLevel_def ErrorLevel_def WarnLevel_def InfoLevel_def
  DebugLevel_def TraceLevel_def

subsection \<open>TranslateLogrusLogLevel\<close>

text \<open>
  The \<^verbatim>\<open>case\<close> clauses of the \<^verbatim>\<open>switch\<close>, in the order of the source: the level of
  the clause and the pair it assigns to \<^verbatim>\<open>severity\<close> and \<^verbatim>\<open>category\<close>.
\<close>

definition switch_cases :: "(Level \<times> string \<times> string) list" where
  "switch_cases =
     [(InfoLevel, infoSeverity, notificationCategory),
      (DebugLevel, infoSeverity, notificationCategory),
      (WarnLevel, warningSeverity, alertCategory),
      (ErrorLevel, errorSeverity, exceptionCategory),
      (FatalLevel, fatalSeverity, exceptionCategory),
      (PanicLevel, fatalSeverity, exceptionCategory)]"

text \<open>
  The two results are initialised to \<^verbatim>\<open>infoSeverity\<close> and \<^verbatim>\<open>notificationCategory\<close>; the
  first clause whose level equals the argument overwrites them, and a level with no
  clause leaves them as they are.
\<close>

definition TranslateLogrusLogLevel :: "Level \<Rightarrow> string \<times> string" where
  "TranslateLogrusLogLevel level =
     (case map_of switch_cases level of
        Some assigned \<Rightarrow> assigned
      | None \<Rightarrow> (infoSeverity, notificationCategory))"

text \<open>The levels that have a clause of their own.\<close>

definition explicit_levels :: "Level set" where
  "explicit_levels = fst ` set switch_cases"

lemma TranslateLogrusLogLevel_cases:
  "TranslateLogrusLogLevel level =
     (if level = InfoLevel then (infoSeverity, notificationCategory)
      else if level = DebugLevel then (infoSeverity, notificationCategory)
      else if level = WarnLevel then (warningSeverity, alertCategory)
      else if level = ErrorLevel then (errorSeverity, exceptionCategory)
      else if level = FatalLevel then (fatalSeverity, exceptionCategory)
      else if level = PanicLevel then (fatalSeverity, exceptionCategory)
      else (infoSeverity, notificationCategory))"
  by (simp add: TranslateLogrusLogLevel_def switch_cases_def)

lemma explicit_levels_eq:
  "explicit_levels = {InfoLevel, DebugLevel, WarnLevel, ErrorLevel, FatalLevel, PanicLevel}"
  by (simp add: explicit_levels_def switch_cases_def)

subsection \<open>Errors\<close>

text \<open>
  A Go \<^verbatim>\<open>error\<close> is a value with a message. \<^verbatim>\<open>ErrorString\<close> is what \<^verbatim>\<open>fmt.Errorf\<close> and
  \<^verbatim>\<open>errors.New\<close> build, and stands for any error of a collaborator, of which only the
  message is known. \<^verbatim>\<open>WithMessage\<close> is what \<^verbatim>\<open>errors.Wrap\<close> and \<^verbatim>\<open>errors.Wrapf\<close> of
  \<^verbatim>\<open>github.com/pkg/errors\<close> build around a non-nil cause (the recorded stack is left out).
  \<^verbatim>\<open>SyntaxError\<close> and \<^verbatim>\<open>UnmarshalTypeError\<close> are the two kinds of error that
  \<^verbatim>\<open>json.Unmarshal\<close> returns for the structs of this package; the second carries the
  description of the JSON value and the name of the Go type it did not fit.
\<close>

datatype error =
    ErrorString string
  | WithMessage error string
  | SyntaxError
  | UnmarshalTypeError string string

text \<open>
  The method \<^verbatim>\<open>Error()\<close>. A wrapped error prints its message, a colon and the message of
  its cause. \<^verbatim>\<open>encoding/json\<close> words a syntax error by the state of its scanner and a type
  error by the path of the field; the model keeps one text for each kind, and nothing
  below reads these two texts.
\<close>

primrec Error :: "error \<Rightarrow> string" where
  "Error (ErrorString msg) = msg"
| "Error (WithMessage cause msg) = msg @ '': '' @ Error cause"
| "Error SyntaxError = ''invalid JSON input''"
| "Error (UnmarshalTypeError v t) =
     ''json: cannot unmarshal '' @ v @ '' into Go value of type '' @ t"

text \<open>\<^verbatim>\<open>errors.Cause\<close>: the innermost error of a chain of wrappers.\<close>

primrec Cause :: "error \<Rightarrow> error" where
  "Cause (ErrorString msg) = ErrorString msg"
| "Cause (WithMessage cause msg) = Cause cause"
| "Cause SyntaxError = SyntaxError"
| "Cause (UnmarshalTypeError v t) = UnmarshalTypeError v t"

subsection \<open>Decimal numerals\<close>

text \<open>
  The verb \<^verbatim>\<open>%d\<close> of \<^verbatim>\<open>fmt\<close> and the encoder of \<^verbatim>\<open>encoding/json\<close> write an integer in
  base ten, with a minus sign when it is negative.
\<close>

definition digit_char :: "nat \<Rightarrow> char" where
  "digit_char d = ''0123456789'' ! d"

function decimal :: "nat \<Rightarrow> string" where
  "decimal n = (if n < 10 then [digit_char n] else decimal (n div 10) @ [digit_char (n mod 10)])"
  by pat_completeness auto
termination
  by (relation "measure id") auto

declare decimal.simps [simp del]

definition Itoa :: "int \<Rightarrow> string" where
  "Itoa i = (if i < 0 then CHR ''-'' # decimal (nat (- i)) else decimal (nat i))"

subsection \<open>UTF-8\<close>

text \<open>
  Go strings are byte sequences; \<^verbatim>\<open>encoding/json\<close> reads them as UTF-8 in both directions.
  \<^verbatim>\<open>DecodeRune\<close> follows \<^verbatim>\<open>utf8.DecodeRune\<close>: the code point at the head of the bytes and
  its width, and \<^verbatim>\<open>(RuneError, 1)\<close> where the head is not a well-formed encoding (an
  overlong form, a surrogate, a value above \<^verbatim>\<open>U+10FFFF\<close>, a missing continuation byte).
\<close>

definition RuneError :: nat where
  "RuneError = 0xFFFD"

definition continuation :: "char \<Rightarrow> bool" where
  "continuation b = (0x80 \<le> (of_char b :: nat) \<and> (of_char b :: nat) \<le> 0xBF)"

text \<open>
  The table \<^verbatim>\<open>first\<close> with \<^verbatim>\<open>acceptRanges\<close>: for a leading byte, the width of the
  encoding and the range of the second byte; \<^verbatim>\<open>None\<close> for a byte that leads nothing.
\<close>

definition first :: "nat \<Rightarrow> (nat \<times> nat \<times> nat) option" where
  "first p0 =
     (if 0xC2 \<le> p0 \<and> p0 \<le> 0xDF then Some (2, 0x80, 0xBF)
      else if p0 = 0xE0 then Some (3, 0xA0, 0xBF)
      else if 0xE1 \<le> p0 \<and> p0 \<le> 0xEC then Some (3, 0x80, 0xBF)
      else if p0 = 0xED then Some (3, 0x80, 0x9F)
      else if 0xEE \<le> p0 \<and> p0 \<le> 0xEF then Some (3, 0x80, 0xBF)
      else if p0 = 0xF0 then Some (4, 0x90, 0xBF)
      else if 0xF1 \<le> p0 \<and> p0 \<le> 0xF3 then Some (4, 0x80, 0xBF)
      else if p0 = 0xF4 then Some (4, 0x80, 0x8F)
      else None)"

definition DecodeRune :: "string \<Rightarrow> nat \<times> nat" where
  "DecodeRune p =
     (case p of
        [] \<Rightarrow> (RuneError, 0)
      | c0 # _ \<Rightarrow>
          (let p0 = (of_char c0 :: nat) in
           if p0 < 0x80 then (p0, 1)
           else
             (case first p0 of
                None \<Rightarrow> (RuneError, 1)
              | Some (sz, lo, hi) \<Rightarrow>
                  if length p < sz then (RuneError, 1)
                  else
                    (let b1 = (of_char (p ! 1) :: nat) in
                     if b1 < lo \<or> hi < b1 then (RuneError, 1)
                     else if sz \<le> 2 then ((p0 mod 32) * 64 + b1 mod 64, 2)
                     else
                       (let b2 = (of_char (p ! 2) :: nat) in
                        if \<not> continuation (p ! 2) then (RuneError, 1)
                        else if sz \<le> 3
                        then ((p0 mod 16) * 4096 + (b1 mod 64) * 64 + b2 mod 64, 3)
                        else
                          (let b3 = (of_char (p ! 3) :: nat) in
                           if \<not> continuation (p ! 3) then (RuneError, 1)
                           else ((p0 mod 8) * 262144 + (b1 mod 64) * 4096
                                   + (b2 mod 64) * 64 + b3 mod 64, 4)))))))"

text \<open>
  \<^verbatim>\<open>utf8.EncodeRune\<close>: one to four bytes; a surrogate or a value above \<^verbatim>\<open>U+10FFFF\<close> is
  written as \<^verbatim>\<open>RuneError\<close>.
\<close>

definition EncodeRune :: "nat \<Rightarrow> string" where
  "EncodeRune r =
     (if r \<le> 0x7F then [char_of r]
      else if r \<le> 0x7FF then [char_of (0xC0 + r div 64), char_of (0x80 + r mod 64)]
      else if r > 0x10FFFF \<or> (0xD800 \<le> r \<and> r \<le> 0xDFFF)
      then [CHR 0xEF, CHR 0xBF, CHR 0xBD]
      else if r \<le> 0xFFFF
      then [char_of (0xE0 + r div 4096), char_of (0x80 + (r div 64) mod 64),
            char_of (0x80 + r mod 64)]
      else [char_of (0xF0 + r div 262144), char_of (0x80 + (r div 4096) mod 64),
            char_of (0x80 + (r div 64) mod 64), char_of (0x80 + r mod 64)])"

lemma DecodeRune_size_pos: "(r, n) = DecodeRune (c # cs) \<Longrightarrow> 0 < n"
  by (auto simp: DecodeRune_def Let_def split: option.splits if_splits)

text \<open>\<^verbatim>\<open>utf8.ValidString\<close>: every position decodes to something other than \<^verbatim>\<open>(RuneError, 1)\<close>.\<close>

function ValidString :: "string \<Rightarrow> bool" where
  "ValidString [] = True"
| "ValidString (c # cs) =
     (case DecodeRune (c # cs) of
        (r, n) \<Rightarrow> \<not> (r = RuneError \<and> n = 1) \<and> ValidString (drop n (c # cs)))"
  by pat_completeness auto
termination
  by (relation "measure length") (auto dest!: DecodeRune_size_pos)

subsection \<open>Well-formed sequences\<close>

text \<open>
  What the proofs about UTF-8 use: the shape of a well-formed encoding of two, three or
  four bytes, with the code point it denotes.
\<close>

definition seq2 :: "string \<Rightarrow> nat \<Rightarrow> bool" where
  "seq2 p r \<longleftrightarrow>
     (\<exists>c0 c1 a x. p = [c0, c1] \<and> of_char c0 = 192 + a \<and> of_char c1 = 128 + x \<and>
        2 \<le> a \<and> a < 32 \<and> x < 64 \<and> r = a * 64 + x)"

definition seq3 :: "string \<Rightarrow> nat \<Rightarrow> bool" where
  "seq3 p r \<longleftrightarrow>
     (\<exists>c0 c1 c2 a x y. p = [c0, c1, c2] \<and> of_char c0 = 224 + a \<and> of_char c1 = 128 + x \<and>
        of_char c2 = 128 + y \<and> a < 16 \<and> x < 64 \<and> y < 64 \<and>
        (a = 0 \<longrightarrow> 32 \<le> x) \<and> (a = 13 \<longrightarrow> x < 32) \<and> r = a * 4096 + x * 64 + y)"

definition seq4 :: "string \<Rightarrow> nat \<Rightarrow> bool" where
  "seq4 p r \<longleftrightarrow>
     (\<exists>c0 c1 c2 c3 a x y z. p = [c0, c1, c2, c3] \<and> of_char c0 = 240 + a \<and>
        of_char c1 = 128 + x \<and> of_char c2 = 128 + y \<and> of_char c3 = 128 + z \<and>
        a < 5 \<and> x < 64 \<and> y < 64 \<and> z < 64 \<and>
        (a = 0 \<longrightarrow> 16 \<le> x) \<and> (a = 4 \<longrightarrow> x < 16) \<and>
        r = a * 262144 + x * 4096 + y * 64 + z)"

subsection \<open>JSON values and their text\<close>

text \<open>
  A JSON value as \<^verbatim>\<open>encoding/json\<close> reads and writes it. A number keeps its literal, as the
  decoder does until it knows the Go type to store it in; an object keeps its members in
  the order of the text, with repeated keys.
\<close>

datatype json =
    JNull
  | JBool bool
  | JNumber string
  | JString string
  | JArray "json list"
  | JObject "(string \<times> json) list"

text \<open>
  The encoder's \<^verbatim>\<open>appendString\<close> with \<^verbatim>\<open>escapeHTML\<close> set, as \<^verbatim>\<open>json.Marshal\<close> sets it.
  \<^verbatim>\<open>htmlSafe\<close> is the table \<^verbatim>\<open>htmlSafeSet\<close>: the ASCII bytes written as they are.
\<close>

definition hex :: "nat \<Rightarrow> char" where
  "hex d = ''0123456789abcdef'' ! d"

definition htmlSafe :: "char \<Rightarrow> bool" where
  "htmlSafe b =
     (0x20 \<le> (of_char b :: nat) \<and> (of_char b :: nat) < 0x80 \<and> b \<noteq> CHR 0x22 \<and>
      b \<noteq> CHR ''&'' \<and> b \<noteq> CHR ''<'' \<and> b \<noteq> CHR ''>'' \<and> b \<noteq> CHR 0x5C)"

function escape :: "string \<Rightarrow> string" where
  "escape [] = []"
| "escape (c # cs) =
     (if (of_char c :: nat) < 0x80 then
        (if htmlSafe c then c # escape cs
         else if c = CHR 0x5C \<or> c = CHR 0x22 then CHR 0x5C # c # escape cs
         else if c = CHR 0x08 then CHR 0x5C # CHR ''b'' # escape cs
         else if c = CHR 0x0C then CHR 0x5C # CHR ''f'' # escape cs
         else if c = CHR 0x0A then CHR 0x5C # CHR ''n'' # escape cs
         else if c = CHR 0x0D then CHR 0x5C # CHR ''r'' # escape cs
         else if c = CHR 0x09 then CHR 0x5C # CHR ''t'' # escape cs
         else CHR 0x5C # ''u00'' @ [hex (of_char c div 16), hex (of_char c mod 16)] @ escape cs)
      else
        (case DecodeRune (c # cs) of
           (r, n) \<Rightarrow>
             if r = RuneError \<and> n = 1
             then CHR 0x5C # ''ufffd'' @ escape (drop n (c # cs))
             else if r = 0x2028 \<or> r = 0x2029
             then CHR 0x5C # ''u202'' @ [hex (r mod 16)] @ escape (drop n (c # cs))
             else take n (c # cs) @ escape (drop n (c # cs))))"
  by pat_completeness auto
termination
  by (relation "measure length") (auto dest!: DecodeRune_size_pos)

definition appendString :: "string \<Rightarrow> string" where
  "appendString src = CHR 0x22 # escape src @ [CHR 0x22]"

fun join :: "string list \<Rightarrow> string" where
  "join [] = []"
| "join [x] = x"
| "join (x # y # ys) = x @ '','' @ join (y # ys)"

text \<open>The compact text that \<^verbatim>\<open>json.Marshal\<close> writes for a value.\<close>

fun render :: "json \<Rightarrow> string" where
  "render JNull = ''null''"
| "render (JBool b) = (if b then ''true'' else ''false'')"
| "render (JNumber lit) = lit"
| "render (JString s) = appendString s"
| "render (JArray xs) = ''['' @ join (map render xs) @ '']''"
| "render (JObject ms) =
     ''{'' @ join (map (\<lambda>(k, v). appendString k @ '':'' @ render v) ms) @ ''}''"

subsection \<open>Reading JSON text\<close>

text \<open>
  \<^verbatim>\<open>json.Unmarshal\<close> first checks the whole input with its scanner and returns a
  \<^verbatim>\<open>SyntaxError\<close>, leaving the target untouched, when the input is not one JSON value
  between optional white space. The model reads the input in two passes with the same
  outcome: the text is cut into tokens, and the tokens are read by the scanner's automaton
  with its stack of open arrays and objects, which here builds the value as well.

  White space is space, tab, carriage return and line feed.
\<close>

definition isSpace :: "char \<Rightarrow> bool" where
  "isSpace c = (c = CHR '' '' \<or> c = CHR 0x09 \<or> c = CHR 0x0D \<or> c = CHR 0x0A)"

definition skip_space :: "string \<Rightarrow> string" where
  "skip_space s = dropWhile isSpace s"

definition isDigit :: "char \<Rightarrow> bool" where
  "isDigit c = (48 \<le> (of_char c :: nat) \<and> (of_char c :: nat) \<le> 57)"

text \<open>
  A string literal, after its opening quote: \<^verbatim>\<open>unquote\<close> returns the bytes it denotes and
  the input after the closing quote. The scanner accepts the escapes \<^verbatim>\<open>\" \\ \/ \b \f \n \r \t\<close>
  and \<^verbatim>\<open>\u\<close> with four hexadecimal digits, and no byte below 0x20. As \<^verbatim>\<open>unquoteBytes\<close>
  does, a \<^verbatim>\<open>\u\<close> escape is written in UTF-8, two escapes that form a surrogate pair are one
  code point, a lone surrogate is \<^verbatim>\<open>RuneError\<close>, and bytes that are not well-formed UTF-8 are
  replaced by \<^verbatim>\<open>RuneError\<close> one at a time.
\<close>

definition hexval :: "char \<Rightarrow> nat option" where
  "hexval c =
     (let n = (of_char c :: nat) in
      if 48 \<le> n \<and> n \<le> 57 then Some (n - 48)
      else if 97 \<le> n \<and> n \<le> 102 then Some (n - 87)
      else if 65 \<le> n \<and> n \<le> 70 then Some (n - 55)
      else None)"

fun getu4 :: "string \<Rightarrow> nat option" where
  "getu4 (b # u # h1 # h2 # h3 # h4 # _) =
     (if b = CHR 0x5C \<and> u = CHR ''u'' then
        (case (hexval h1, hexval h2, hexval h3, hexval h4) of
           (Some d1, Some d2, Some d3, Some d4) \<Rightarrow> Some (((d1 * 16 + d2) * 16 + d3) * 16 + d4)
         | _ \<Rightarrow> None)
      else None)"
| "getu4 _ = None"

definition IsSurrogate :: "nat \<Rightarrow> bool" where
  "IsSurrogate r = (0xD800 \<le> r \<and> r < 0xE000)"

definition utf16_DecodeRune :: "nat \<Rightarrow> nat option \<Rightarrow> nat" where
  "utf16_DecodeRune r1 r2 =
     (case r2 of
        None \<Rightarrow> RuneError
      | Some r2 \<Rightarrow>
          if 0xD800 \<le> r1 \<and> r1 < 0xDC00 \<and> 0xDC00 \<le> r2 \<and> r2 < 0xE000
          then (r1 - 0xD800) * 1024 + (r2 - 0xDC00) + 0x10000
          else RuneError)"

definition simple_escape :: "char \<Rightarrow> char option" where
  "simple_escape e =
     (if e = CHR 0x22 \<or> e = CHR 0x5C \<or> e = CHR ''/'' then Some e
      else if e = CHR ''b'' then Some (CHR 0x08)
      else if e = CHR ''f'' then Some (CHR 0x0C)
      else if e = CHR ''n'' then Some (CHR 0x0A)
      else if e = CHR ''r'' then Some (CHR 0x0D)
      else if e = CHR ''t'' then Some (CHR 0x09)
      else None)"

definition emit :: "string \<Rightarrow> (string \<times> string) option \<Rightarrow> (string \<times> string) option" where
  "emit bytes res = (case res of None \<Rightarrow> None | Some (t, rest) \<Rightarrow> Some (bytes @ t, rest))"

function unquote :: "string \<Rightarrow> (string \<times> string) option" where
  "unquote [] = None"
| "unquote (c # cs) =
     (if c = CHR 0x22 then Some ([], cs)
      else if c = CHR 0x5C then
        (case cs of
           [] \<Rightarrow> None
         | e # es \<Rightarrow>
             if e = CHR ''u'' then
               (case getu4 (c # cs) of
                  None \<Rightarrow> None
                | Some rr \<Rightarrow>
                    if IsSurrogate rr then
                      (if utf16_DecodeRune rr (getu4 (drop 4 es)) \<noteq> RuneError
                       then emit (EncodeRune (utf16_DecodeRune rr (getu4 (drop 4 es))))
                              (unquote (drop 10 es))
                       else emit (EncodeRune RuneError) (unquote (drop 4 es)))
                    else emit (EncodeRune rr) (unquote (drop 4 es)))
             else
               (case simple_escape e of
                  None \<Rightarrow> None
                | Some b \<Rightarrow> emit [b] (unquote es)))
      else if (of_char c :: nat) < 0x20 then None
      else if (of_char c :: nat) < 0x80 then emit [c] (unquote cs)
      else
        (case DecodeRune (c # cs) of
           (rr, n) \<Rightarrow> emit (EncodeRune rr) (unquote (drop n (c # cs)))))"
  by pat_completeness auto
termination
  by (relation "measure length") (auto dest!: DecodeRune_size_pos)



text \<open>
  A number literal: an optional minus sign, \<^verbatim>\<open>0\<close> or a digit from 1 to 9 followed by
  digits, an optional fraction (a point and at least one digit), an optional exponent
  (\<^verbatim>\<open>e\<close> or \<^verbatim>\<open>E\<close>, an optional sign, at least one digit).
\<close>

definition digits1 :: "string \<Rightarrow> (string \<times> string) option" where
  "digits1 s = (if takeWhile isDigit s = [] then None
                else Some (takeWhile isDigit s, dropWhile isDigit s))"

definition scan_int :: "string \<Rightarrow> (string \<times> string) option" where
  "scan_int s =
     (case s of
        [] \<Rightarrow> None
      | d # r \<Rightarrow>
          if d = CHR ''0'' then Some ([d], r)
          else if isDigit d then Some (d # takeWhile isDigit r, dropWhile isDigit r)
          else None)"

definition scan_frac :: "string \<Rightarrow> (string \<times> string) option" where
  "scan_frac s =
     (case s of
        [] \<Rightarrow> Some ([], s)
      | p # r \<Rightarrow>
          if p = CHR ''.'' then
            (case digits1 r of None \<Rightarrow> None | Some (ds, r') \<Rightarrow> Some (p # ds, r'))
          else Some ([], s))"

definition scan_exp :: "string \<Rightarrow> (string \<times> string) option" where
  "scan_exp s =
     (case s of
        [] \<Rightarrow> Some ([], s)
      | e # r \<Rightarrow>
          if e = CHR ''e'' \<or> e = CHR ''E'' then
            (case r of
               [] \<Rightarrow> None
             | g # r' \<Rightarrow>
                 if g = CHR ''+'' \<or> g = CHR ''-'' then
                   (case digits1 r' of None \<Rightarrow> None | Some (ds, r'') \<Rightarrow> Some (e # g # ds, r''))
                 else
                   (case digits1 r of None \<Rightarrow> None | Some (ds, r'') \<Rightarrow> Some (e # ds, r'')))
          else Some ([], s))"

definition scan_number :: "string \<Rightarrow> (string \<times> string) option" where
  "scan_number s =
     (let (sign, s0) = (case s of [] \<Rightarrow> ([], s)
                        | c # r \<Rightarrow> if c = CHR ''-'' then ([c], r) else ([], s)) in
      case scan_int s0 of
        None \<Rightarrow> None
      | Some (i, s1) \<Rightarrow>
          (case scan_frac s1 of
             None \<Rightarrow> None
           | Some (f, s2) \<Rightarrow>
               (case scan_exp s2 of
                  None \<Rightarrow> None
                | Some (x, s3) \<Rightarrow> Some (sign @ i @ f @ x, s3))))"


lemma skip_space_length: "length (skip_space s) \<le> length s"
  by (simp add: skip_space_def length_dropWhile_le)

lemma emit_length: "emit bytes res = Some (t, r) \<Longrightarrow> \<exists>t'. res = Some (t', r)"
  by (auto simp: emit_def split: option.splits)

lemma unquote_length: "unquote s = Some (t, r) \<Longrightarrow> length r < length s"
proof (induction s arbitrary: t r rule: unquote.induct)
  case 1
  then show ?case by simp
next
  case (2 c cs)
  show ?case
  proof (cases "c = CHR 0x22")
    case True
    with "2.prems" show ?thesis by simp
  next
    case q: False
    show ?thesis
    proof (cases "c = CHR 0x5C")
      case True
      note b = this
      show ?thesis
      proof (cases cs)
        case Nil
        with "2.prems" q b show ?thesis by simp
      next
        case (Cons e es)
        show ?thesis
        proof (cases "e = CHR ''u''")
          case True
          with "2.prems" q b Cons obtain rr where g: "getu4 (c # cs) = Some rr"
            by (auto split: option.splits)
          show ?thesis
          proof (cases "IsSurrogate rr")
            case s: True
            show ?thesis
            proof (cases "utf16_DecodeRune rr (getu4 (drop 4 es)) \<noteq> RuneError")
              case True
              with "2.prems" q b Cons \<open>e = CHR ''u''\<close> g s
              obtain t' where "unquote (drop 10 es) = Some (t', r)"
                by (auto dest!: emit_length)
              with "2.IH"(1) [OF q b Cons \<open>e = CHR ''u''\<close> g s True]
              have "length r < length (drop 10 es)" by simp
              with Cons show ?thesis by simp
            next
              case False
              with "2.prems" q b Cons \<open>e = CHR ''u''\<close> g s
              obtain t' where "unquote (drop 4 es) = Some (t', r)"
                by (auto dest!: emit_length)
              with "2.IH"(2) [OF q b Cons \<open>e = CHR ''u''\<close> g s False]
              have "length r < length (drop 4 es)" by simp
              with Cons show ?thesis by simp
            qed
          next
            case False
            with "2.prems" q b Cons \<open>e = CHR ''u''\<close> g
            obtain t' where "unquote (drop 4 es) = Some (t', r)"
              by (auto dest!: emit_length)
            with "2.IH"(3) [OF q b Cons \<open>e = CHR ''u''\<close> g False]
            have "length r < length (drop 4 es)" by simp
            with Cons show ?thesis by simp
          qed
        next
          case False
          with "2.prems" q b Cons obtain x t' where
            x: "simple_escape e = Some x" and "unquote es = Some (t', r)"
            by (auto split: option.splits dest!: emit_length)
          with "2.IH"(4) [OF q b Cons False x]
          have "length r < length es" by simp
          with Cons show ?thesis by simp
        qed
      qed
    next
      case nb: False
      show ?thesis
      proof (cases "(of_char c :: nat) < 0x20")
        case True
        with "2.prems" q nb show ?thesis by simp
      next
        case nc: False
        show ?thesis
        proof (cases "(of_char c :: nat) < 0x80")
          case True
          with "2.prems" q nb nc obtain t' where "unquote cs = Some (t', r)"
            by (auto dest!: emit_length)
          with "2.IH"(5) [OF q nb nc True] show ?thesis by fastforce
        next
          case False
          obtain rr n where d: "DecodeRune (c # cs) = (rr, n)"
            by (cases "DecodeRune (c # cs)")
          with "2.prems" q nb nc False obtain t' where "unquote (drop n (c # cs)) = Some (t', r)"
            by (auto dest!: emit_length)
          with "2.IH"(6) [OF q nb nc False d [symmetric]]
          have "length r < length (drop n (c # cs))" by simp
          then show ?thesis by simp
        qed
      qed
    qed
  qed
qed


text \<open>
  Each token consumes input, which makes the recursion of the tokenizer well-founded.
\<close>

lemma digits1_length: "digits1 s = Some (ds, r) \<Longrightarrow> length r < length s"
proof -
  assume a: "digits1 s = Some (ds, r)"
  then have "takeWhile isDigit s \<noteq> []" and r: "r = dropWhile isDigit s"
    by (auto simp: digits1_def split: if_splits)
  then have "length (takeWhile isDigit s) > 0" by simp
  moreover have "length (takeWhile isDigit s) + length (dropWhile isDigit s) = length s"
    by (metis length_append takeWhile_dropWhile_id)
  ultimately show ?thesis unfolding r by linarith
qed

lemma scan_int_length: "scan_int s = Some (i, r) \<Longrightarrow> length r < length s"
  by (auto simp: scan_int_def less_Suc_eq_le length_dropWhile_le split: list.splits if_splits)

lemma scan_frac_length: "scan_frac s = Some (f, r) \<Longrightarrow> length r \<le> length s"
  by (auto simp: scan_frac_def split: list.splits if_splits option.splits
           dest!: digits1_length)

lemma scan_exp_length: "scan_exp s = Some (x, r) \<Longrightarrow> length r \<le> length s"
  by (auto simp: scan_exp_def split: list.splits if_splits option.splits
           dest!: digits1_length)

lemma scan_number_length: "scan_number s = Some (lit, r) \<Longrightarrow> length r < length s"
  by (fastforce simp: scan_number_def split: list.splits if_splits option.splits prod.splits
        dest!: scan_int_length scan_frac_length scan_exp_length)

text \<open>
  The tokens of JSON. \<^verbatim>\<open>strip_literal\<close> reads one of the words \<^verbatim>\<open>true\<close>, \<^verbatim>\<open>false\<close> and
  \<^verbatim>\<open>null\<close>; any byte that starts no token ends the reading with a syntax error.
\<close>

definition strip_literal :: "string \<Rightarrow> string \<Rightarrow> string option" where
  "strip_literal lit s = (if take (length lit) s = lit then Some (drop (length lit) s) else None)"

lemma skip_space_Cons: "skip_space s = c # cs \<Longrightarrow> length cs < length s"
  using skip_space_length [of s] by simp

lemma strip_literal_length:
  "strip_literal (l # ls) (c # cs) = Some r \<Longrightarrow> length r \<le> length cs"
  by (auto simp: strip_literal_def split: if_splits)

datatype token =
    LBrace | RBrace | LBracket | RBracket | Colon | Comma
  | TString string | TNumber string | TTrue | TFalse | TNull

definition push :: "token \<Rightarrow> token list option \<Rightarrow> token list option" where
  "push t res = (case res of None \<Rightarrow> None | Some ts \<Rightarrow> Some (t # ts))"

function tokens :: "string \<Rightarrow> token list option" where
  "tokens s =
     (case skip_space s of
        [] \<Rightarrow> Some []
      | c # cs \<Rightarrow>
          if c = CHR ''{'' then push LBrace (tokens cs)
          else if c = CHR ''}'' then push RBrace (tokens cs)
          else if c = CHR ''['' then push LBracket (tokens cs)
          else if c = CHR '']'' then push RBracket (tokens cs)
          else if c = CHR '':'' then push Colon (tokens cs)
          else if c = CHR '','' then push Comma (tokens cs)
          else if c = CHR 0x22 then
            (case unquote cs of
               None \<Rightarrow> None
             | Some (t, r) \<Rightarrow> push (TString t) (tokens r))
          else if c = CHR ''t'' then
            (case strip_literal ''true'' (c # cs) of
               None \<Rightarrow> None
             | Some r \<Rightarrow> push TTrue (tokens r))
          else if c = CHR ''f'' then
            (case strip_literal ''false'' (c # cs) of
               None \<Rightarrow> None
             | Some r \<Rightarrow> push TFalse (tokens r))
          else if c = CHR ''n'' then
            (case strip_literal ''null'' (c # cs) of
               None \<Rightarrow> None
             | Some r \<Rightarrow> push TNull (tokens r))
          else
            (case scan_number (c # cs) of
               None \<Rightarrow> None
             | Some (lit, r) \<Rightarrow> push (TNumber lit) (tokens r)))"
  by pat_completeness auto
termination
  by (relation "measure length")
     (auto dest!: skip_space_Cons unquote_length scan_number_length strip_literal_length)

declare tokens.simps [simp del]




text \<open>
  The scanner's automaton. Its stack holds, for every array or object that is still
  open, what has been read of it (\<^verbatim>\<open>parseArrayValue\<close>, \<^verbatim>\<open>parseObjectKey\<close> and
  \<^verbatim>\<open>parseObjectValue\<close> of the scanner); its state is what may come next. The scanner refuses
  to open more than \<^verbatim>\<open>maxNestingDepth\<close> arrays and objects inside each other.
\<close>

datatype frame =
    InArray "json list"
  | InObject "(string \<times> json) list"
  | InMember "(string \<times> json) list" string

datatype expect =
    BeginValue
  | BeginValueOrEmpty
  | BeginString
  | BeginStringOrEmpty
  | ObjectColon
  | EndValue
  | EndTop json

definition maxNestingDepth :: nat where
  "maxNestingDepth = 10000"

definition end_value :: "json \<Rightarrow> frame list \<Rightarrow> (frame list \<times> expect) option" where
  "end_value v stack =
     (case stack of
        [] \<Rightarrow> Some ([], EndTop v)
      | InArray xs # st \<Rightarrow> Some (InArray (xs @ [v]) # st, EndValue)
      | InMember ms k # st \<Rightarrow> Some (InObject (ms @ [(k, v)]) # st, EndValue)
      | InObject ms # st \<Rightarrow> None)"

definition begin_value :: "token \<Rightarrow> frame list \<Rightarrow> (frame list \<times> expect) option" where
  "begin_value t stack =
     (case t of
        LBrace \<Rightarrow>
          if length stack < maxNestingDepth then Some (InObject [] # stack, BeginStringOrEmpty)
          else None
      | LBracket \<Rightarrow>
          if length stack < maxNestingDepth then Some (InArray [] # stack, BeginValueOrEmpty)
          else None
      | TString s \<Rightarrow> end_value (JString s) stack
      | TNumber lit \<Rightarrow> end_value (JNumber lit) stack
      | TTrue \<Rightarrow> end_value (JBool True) stack
      | TFalse \<Rightarrow> end_value (JBool False) stack
      | TNull \<Rightarrow> end_value JNull stack
      | _ \<Rightarrow> None)"

definition begin_string :: "token \<Rightarrow> frame list \<Rightarrow> (frame list \<times> expect) option" where
  "begin_string t stack =
     (case (t, stack) of
        (TString k, InObject ms # st) \<Rightarrow> Some (InMember ms k # st, ObjectColon)
      | _ \<Rightarrow> None)"

definition step :: "frame list \<times> expect \<Rightarrow> token \<Rightarrow> (frame list \<times> expect) option" where
  "step state t =
     (case state of
        (stack, BeginValue) \<Rightarrow> begin_value t stack
      | (stack, BeginValueOrEmpty) \<Rightarrow>
          (case (t, stack) of
             (RBracket, InArray xs # st) \<Rightarrow> end_value (JArray xs) st
           | _ \<Rightarrow> begin_value t stack)
      | (stack, BeginString) \<Rightarrow> begin_string t stack
      | (stack, BeginStringOrEmpty) \<Rightarrow>
          (case (t, stack) of
             (RBrace, InObject ms # st) \<Rightarrow> end_value (JObject ms) st
           | _ \<Rightarrow> begin_string t stack)
      | (stack, ObjectColon) \<Rightarrow> (case t of Colon \<Rightarrow> Some (stack, BeginValue) | _ \<Rightarrow> None)
      | (stack, EndValue) \<Rightarrow>
          (case (t, stack) of
             (Comma, InArray xs # st) \<Rightarrow> Some (stack, BeginValue)
           | (RBracket, InArray xs # st) \<Rightarrow> end_value (JArray xs) st
           | (Comma, InObject ms # st) \<Rightarrow> Some (stack, BeginString)
           | (RBrace, InObject ms # st) \<Rightarrow> end_value (JObject ms) st
           | _ \<Rightarrow> None)
      | (stack, EndTop v) \<Rightarrow> None)"

fun run :: "frame list \<times> expect \<Rightarrow> token list \<Rightarrow> json option" where
  "run state [] = (case state of ([], EndTop v) \<Rightarrow> Some v | _ \<Rightarrow> None)"
| "run state (t # ts) = (case step state t of None \<Rightarrow> None | Some state' \<Rightarrow> run state' ts)"

text \<open>
  The value that a text denotes, or \<^verbatim>\<open>None\<close> where \<^verbatim>\<open>json.Unmarshal\<close> returns a
  \<^verbatim>\<open>SyntaxError\<close>.
\<close>

definition json_parse :: "string \<Rightarrow> json option" where
  "json_parse data = (case tokens data of None \<Rightarrow> None | Some ts \<Rightarrow> run ([], BeginValue) ts)"


subsection \<open>The structs\<close>

text \<open>
  \<^verbatim>\<open>int64\<close>, and \<^verbatim>\<open>int\<close> on the 64-bit platforms the library is built for, are 64-bit
  words read as two's complement. A \<^verbatim>\<open>map[string]interface{}\<close> is an optional association
  list, \<^verbatim>\<open>None\<close> for the nil map, with a type variable for the values a caller may store
  behind \<^verbatim>\<open>interface{}\<close>; a \<^verbatim>\<open>*Resource\<close> is an optional \<^verbatim>\<open>Resource\<close>, \<^verbatim>\<open>None\<close> for nil.
\<close>

type_synonym int64 = "64 word"

record ServiceKey =
  Url :: string
  ClientId :: string
  ClientSecret :: string
  OauthUrl :: string

record 'any Resource =
  ResourceName :: string
  ResourceType :: string
  ResourceInstance :: string
  Tags :: "(string \<times> 'any) list option"

record 'any Event =
  EventType :: string
  EventTimestamp :: int64
  Severity :: string
  Category :: string
  Subject :: string
  Body :: string
  Priority :: int64
  Tags :: "(string \<times> 'any) list option"
  Resource :: "'any Resource option"

subsection \<open>json.Marshal on the structs\<close>

text \<open>
  A field tagged \<^verbatim>\<open>omitempty\<close> is left out when \<^verbatim>\<open>isEmptyValue\<close> holds of it: a string or
  a map of length 0, an integer equal to 0, a nil pointer.
\<close>

definition omitempty_string :: "string \<Rightarrow> string \<Rightarrow> (string \<times> json) list" where
  "omitempty_string name s = (if length s = 0 then [] else [(name, JString s)])"

definition omitempty_int :: "string \<Rightarrow> int64 \<Rightarrow> (string \<times> json) list" where
  "omitempty_int name i = (if i = 0 then [] else [(name, JNumber (Itoa (sint i)))])"

text \<open>
  The entries of a map are written in the order of their keys, compared byte by byte; the
  first value that cannot be encoded ends the encoding with its error. The encoding of a
  value behind \<^verbatim>\<open>interface{}\<close> is the parameter \<^verbatim>\<open>enc\<close>.
\<close>

fun encode_entries ::
  "('any \<Rightarrow> error + json) \<Rightarrow> (string \<times> 'any) list \<Rightarrow> error + (string \<times> json) list" where
  "encode_entries enc [] = Inr []"
| "encode_entries enc ((k, v) # kvs) =
     (case enc v of
        Inl err \<Rightarrow> Inl err
      | Inr j \<Rightarrow>
          (case encode_entries enc kvs of
             Inl err \<Rightarrow> Inl err
           | Inr js \<Rightarrow> Inr ((k, j) # js)))"

definition omitempty_map ::
  "('any \<Rightarrow> error + json) \<Rightarrow> string \<Rightarrow> (string \<times> 'any) list option
     \<Rightarrow> error + (string \<times> json) list" where
  "omitempty_map enc name m =
     (case m of
        None \<Rightarrow> Inr []
      | Some kvs \<Rightarrow>
          if length kvs = 0 then Inr []
          else
            (case encode_entries enc (sort_key fst kvs) of
               Inl err \<Rightarrow> Inl err
             | Inr js \<Rightarrow> Inr [(name, JObject js)]))"

definition Resource_members ::
  "('any \<Rightarrow> error + json) \<Rightarrow> 'any Resource \<Rightarrow> error + (string \<times> json) list" where
  "Resource_members enc r =
     (case omitempty_map enc ''tags'' (Resource.Tags r) of
        Inl err \<Rightarrow> Inl err
      | Inr tags \<Rightarrow>
          Inr (omitempty_string ''resourceName'' (ResourceName r) @
               omitempty_string ''resourceType'' (ResourceType r) @
               omitempty_string ''resourceInstance'' (ResourceInstance r) @
               tags))"

definition omitempty_Resource ::
  "('any \<Rightarrow> error + json) \<Rightarrow> string \<Rightarrow> 'any Resource option
     \<Rightarrow> error + (string \<times> json) list" where
  "omitempty_Resource enc name p =
     (case p of
        None \<Rightarrow> Inr []
      | Some r \<Rightarrow>
          (case Resource_members enc r of
             Inl err \<Rightarrow> Inl err
           | Inr ms \<Rightarrow> Inr [(name, JObject ms)]))"

definition Event_members ::
  "('any \<Rightarrow> error + json) \<Rightarrow> 'any Event \<Rightarrow> error + (string \<times> json) list" where
  "Event_members enc e =
     (case omitempty_map enc ''tags'' (Event.Tags e) of
        Inl err \<Rightarrow> Inl err
      | Inr tags \<Rightarrow>
          (case omitempty_Resource enc ''resource'' (Resource e) of
             Inl err \<Rightarrow> Inl err
           | Inr resource \<Rightarrow>
               Inr (omitempty_string ''eventType'' (EventType e) @
                    omitempty_int ''eventTimestamp'' (EventTimestamp e) @
                    omitempty_string ''severity'' (Severity e) @
                    omitempty_string ''category'' (Category e) @
                    omitempty_string ''subject'' (Subject e) @
                    omitempty_string ''body'' (Event.Body e) @
                    omitempty_int ''priority'' (Priority e) @
                    tags @ resource)))"

text \<open>\<^verbatim>\<open>json.Marshal(event)\<close>: the bytes of the object, or the error of the encoding.\<close>

definition Marshal_Event :: "('any \<Rightarrow> error + json) \<Rightarrow> 'any Event \<Rightarrow> error + string" where
  "Marshal_Event enc e =
     (case Event_members enc e of
        Inl err \<Rightarrow> Inl err
      | Inr ms \<Rightarrow> Inr (render (JObject ms)))"

definition Marshal_Resource :: "('any \<Rightarrow> error + json) \<Rightarrow> 'any Resource \<Rightarrow> error + string" where
  "Marshal_Resource enc r =
     (case Resource_members enc r of
        Inl err \<Rightarrow> Inl err
      | Inr ms \<Rightarrow> Inr (render (JObject ms)))"

text \<open>The fields of a \<^verbatim>\<open>ServiceKey\<close> carry no \<^verbatim>\<open>omitempty\<close>: all four are always written.\<close>

definition ServiceKey_members :: "ServiceKey \<Rightarrow> (string \<times> json) list" where
  "ServiceKey_members k =
     [(''url'', JString (Url k)),
      (''client_id'', JString (ClientId k)),
      (''client_secret'', JString (ClientSecret k)),
      (''oauth_url'', JString (OauthUrl k))]"

definition Marshal_ServiceKey :: "ServiceKey \<Rightarrow> string" where
  "Marshal_ServiceKey k = render (JObject (ServiceKey_members k))"

subsection \<open>json.Unmarshal on the structs\<close>

text \<open>
  The decoder finds the field for a key of an object by the name in the field's tag: a
  field whose name equals the key, or else the first field whose name equals the key when
  both are folded. \<^verbatim>\<open>foldName\<close> maps the ASCII letters to upper case and the two other
  characters that fold to an ASCII letter, the long s (\<^verbatim>\<open>U+017F\<close>) and the Kelvin sign
  (\<^verbatim>\<open>U+212A\<close>), to \<^verbatim>\<open>S\<close> and \<^verbatim>\<open>K\<close>; no other character folds to an ASCII one, and the
  names of the fields here are ASCII. A key that matches no field is skipped.
\<close>

fun foldName :: "string \<Rightarrow> string" where
  "foldName [] = []"
| "foldName (c # cs) =
     (if CHR ''a'' \<le> c \<and> c \<le> CHR ''z'' then char_of ((of_char c :: nat) - 32) # foldName cs
      else if c = CHR 0xC5 \<and> take 1 cs = [CHR 0xBF] then CHR ''S'' # foldName (drop 1 cs)
      else if c = CHR 0xE2 \<and> take 2 cs = [CHR 0x84, CHR 0xAA] then CHR ''K'' # foldName (drop 2 cs)
      else c # foldName cs)"

definition lookup_field :: "string list \<Rightarrow> string \<Rightarrow> string option" where
  "lookup_field names key =
     (case find (\<lambda>name. name = key) names of
        Some name \<Rightarrow> Some name
      | None \<Rightarrow> find (\<lambda>name. foldName name = foldName key) names)"

text \<open>
  A value that does not fit the type of its field is skipped, and the decoder goes on;
  it remembers the first such \<^verbatim>\<open>UnmarshalTypeError\<close> (\<^verbatim>\<open>saveError\<close>) and returns it at the
  end. \<^verbatim>\<open>null\<close> has no effect on a string or an integer and sets a map or a pointer to nil.
\<close>

definition json_kind :: "json \<Rightarrow> string" where
  "json_kind v =
     (case v of
        JNull \<Rightarrow> ''null''
      | JBool b \<Rightarrow> ''bool''
      | JNumber lit \<Rightarrow> ''number''
      | JString s \<Rightarrow> ''string''
      | JArray xs \<Rightarrow> ''array''
      | JObject ms \<Rightarrow> ''object'')"

definition saveError :: "error option \<Rightarrow> error option \<Rightarrow> error option" where
  "saveError saved err = (case saved of None \<Rightarrow> err | Some e \<Rightarrow> Some e)"

definition store_string :: "json \<Rightarrow> string \<Rightarrow> string \<times> error option" where
  "store_string v old =
     (case v of
        JNull \<Rightarrow> (old, None)
      | JString s \<Rightarrow> (s, None)
      | _ \<Rightarrow> (old, Some (UnmarshalTypeError (json_kind v) ''string'')))"

text \<open>
  An integer field takes a number literal that \<^verbatim>\<open>strconv.ParseInt\<close> reads in base 10 into
  64 bits: digits only, after an optional sign, and in range. A literal with a fraction
  or an exponent is a type error.
\<close>

definition digit_value :: "string \<Rightarrow> nat" where
  "digit_value ds = foldl (\<lambda>n c. 10 * n + ((of_char c :: nat) - 48)) 0 ds"

definition ParseInt :: "string \<Rightarrow> int option" where
  "ParseInt s =
     (let (neg, ds) =
        (case s of
           [] \<Rightarrow> (False, s)
         | c # r \<Rightarrow> if c = CHR ''-'' then (True, r) else if c = CHR ''+'' then (False, r)
                    else (False, s));
          i = (if neg then - int (digit_value ds) else int (digit_value ds))
      in
      if ds \<noteq> [] \<and> list_all isDigit ds \<and> - (2 ^ 63) \<le> i \<and> i < 2 ^ 63 then Some i else None)"

definition store_int :: "string \<Rightarrow> json \<Rightarrow> int64 \<Rightarrow> int64 \<times> error option" where
  "store_int type v old =
     (case v of
        JNull \<Rightarrow> (old, None)
      | JNumber lit \<Rightarrow>
          (case ParseInt lit of
             Some i \<Rightarrow> (word_of_int i, None)
           | None \<Rightarrow> (old, Some (UnmarshalTypeError (''number '' @ lit) type)))
      | _ \<Rightarrow> (old, Some (UnmarshalTypeError (json_kind v) type)))"

text \<open>
  A JSON object is stored into a \<^verbatim>\<open>map[string]interface{}\<close> entry by entry: a nil map is
  replaced by a new one, a map that exists is reused and keeps the entries whose keys do
  not occur in the object. The value stored for an entry is what the parameter \<^verbatim>\<open>vi\<close>
  (the decoder's \<^verbatim>\<open>valueInterface\<close>) makes of the JSON value.
\<close>

fun store_entries ::
  "(json \<Rightarrow> 'any \<times> error option) \<Rightarrow> (string \<times> json) list
     \<Rightarrow> (string \<times> 'any) list \<times> error option \<Rightarrow> (string \<times> 'any) list \<times> error option" where
  "store_entries vi [] (m, saved) = (m, saved)"
| "store_entries vi ((k, v) # ms) (m, saved) =
     (case vi v of
        (x, err) \<Rightarrow> store_entries vi ms (AList.update k x m, saveError saved err))"

definition store_map ::
  "(json \<Rightarrow> 'any \<times> error option) \<Rightarrow> json \<Rightarrow> (string \<times> 'any) list option
     \<Rightarrow> (string \<times> 'any) list option \<times> error option" where
  "store_map vi v old =
     (case v of
        JNull \<Rightarrow> (None, None)
      | JObject ms \<Rightarrow>
          (case store_entries vi ms (case old of None \<Rightarrow> [] | Some m \<Rightarrow> m, None) of
             (m, err) \<Rightarrow> (Some m, err))
      | _ \<Rightarrow> (old, Some (UnmarshalTypeError (json_kind v) ''map[string]interface {}'')))"

text \<open>
  A JSON object is stored into a struct member by member, in the order of the text, so
  that of two members for one field the later is stored last. \<^verbatim>\<open>store\<close> stores one value
  into the field of a given name.
\<close>

fun object_into ::
  "(string \<Rightarrow> json \<Rightarrow> 'a \<Rightarrow> 'a \<times> error option) \<Rightarrow> string list \<Rightarrow> (string \<times> json) list
     \<Rightarrow> 'a \<times> error option \<Rightarrow> 'a \<times> error option" where
  "object_into store names [] (x, saved) = (x, saved)"
| "object_into store names ((k, v) # ms) (x, saved) =
     (case lookup_field names k of
        None \<Rightarrow> object_into store names ms (x, saved)
      | Some name \<Rightarrow>
          (case store name v x of
             (x', err) \<Rightarrow> object_into store names ms (x', saveError saved err)))"

text \<open>
  \<^verbatim>\<open>ServiceKey\<close>: the names in the tags of its fields, and the store into each.
\<close>

definition ServiceKey_fields :: "string list" where
  "ServiceKey_fields = [''url'', ''client_id'', ''client_secret'', ''oauth_url'']"

definition ServiceKey_store :: "string \<Rightarrow> json \<Rightarrow> ServiceKey \<Rightarrow> ServiceKey \<times> error option" where
  "ServiceKey_store name v k =
     (if name = ''url'' then
        (case store_string v (Url k) of (x, err) \<Rightarrow> (k\<lparr>Url := x\<rparr>, err))
      else if name = ''client_id'' then
        (case store_string v (ClientId k) of (x, err) \<Rightarrow> (k\<lparr>ClientId := x\<rparr>, err))
      else if name = ''client_secret'' then
        (case store_string v (ClientSecret k) of (x, err) \<Rightarrow> (k\<lparr>ClientSecret := x\<rparr>, err))
      else if name = ''oauth_url'' then
        (case store_string v (OauthUrl k) of (x, err) \<Rightarrow> (k\<lparr>OauthUrl := x\<rparr>, err))
      else (k, None))"

text \<open>
  \<^verbatim>\<open>json.Unmarshal(data, &ansServiceKey)\<close>: the struct as the call leaves it, and the
  error. At the top, \<^verbatim>\<open>null\<close> has no effect, and a value that is neither \<^verbatim>\<open>null\<close> nor an
  object is a type error.
\<close>

definition Unmarshal_ServiceKey :: "string \<Rightarrow> ServiceKey \<Rightarrow> ServiceKey \<times> error option" where
  "Unmarshal_ServiceKey data k =
     (case json_parse data of
        None \<Rightarrow> (k, Some SyntaxError)
      | Some v \<Rightarrow>
          (case v of
             JNull \<Rightarrow> (k, None)
           | JObject ms \<Rightarrow> object_into ServiceKey_store ServiceKey_fields ms (k, None)
           | _ \<Rightarrow> (k, Some (UnmarshalTypeError (json_kind v) ''ans.ServiceKey''))))"

text \<open>
  UnmarshallServiceKeyJSON has named results: it returns the struct as
  \<^verbatim>\<open>json.Unmarshal\<close> left it together with the error, which it wraps.
\<close>

definition zero_ServiceKey :: ServiceKey where
  "zero_ServiceKey = \<lparr>Url = [], ClientId = [], ClientSecret = [], OauthUrl = []\<rparr>"

definition UnmarshallServiceKeyJSON :: "string \<Rightarrow> ServiceKey \<times> error option" where
  "UnmarshallServiceKeyJSON serviceKeyJSON =
     (case Unmarshal_ServiceKey serviceKeyJSON zero_ServiceKey of
        (ansServiceKey, Some err) \<Rightarrow>
          (ansServiceKey, Some (WithMessage err ''error unmarshalling ANS serviceKey''))
      | (ansServiceKey, None) \<Rightarrow> (ansServiceKey, None))"

text \<open>
  \<^verbatim>\<open>Resource\<close>, and the field \<^verbatim>\<open>Resource *Resource\<close> of an event. For a value other than
  \<^verbatim>\<open>null\<close> the decoder allocates a \<^verbatim>\<open>Resource\<close> when the pointer is nil, before it looks
  at the kind of the value; an object is then stored into the \<^verbatim>\<open>Resource\<close> that the pointer
  refers to, field by field.
\<close>

definition Resource_fields :: "string list" where
  "Resource_fields = [''resourceName'', ''resourceType'', ''resourceInstance'', ''tags'']"

definition Resource_store ::
  "(json \<Rightarrow> 'any \<times> error option) \<Rightarrow> string \<Rightarrow> json \<Rightarrow> 'any Resource
     \<Rightarrow> 'any Resource \<times> error option" where
  "Resource_store vi name v r =
     (if name = ''resourceName'' then
        (case store_string v (ResourceName r) of (x, err) \<Rightarrow> (r\<lparr>ResourceName := x\<rparr>, err))
      else if name = ''resourceType'' then
        (case store_string v (ResourceType r) of (x, err) \<Rightarrow> (r\<lparr>ResourceType := x\<rparr>, err))
      else if name = ''resourceInstance'' then
        (case store_string v (ResourceInstance r) of
           (x, err) \<Rightarrow> (r\<lparr>ResourceInstance := x\<rparr>, err))
      else if name = ''tags'' then
        (case store_map vi v (Resource.Tags r) of (x, err) \<Rightarrow> (r\<lparr>Resource.Tags := x\<rparr>, err))
      else (r, None))"

definition zero_Resource :: "'any Resource" where
  "zero_Resource =
     \<lparr>ResourceName = [], ResourceType = [], ResourceInstance = [], Resource.Tags = None\<rparr>"

definition store_Resource ::
  "(json \<Rightarrow> 'any \<times> error option) \<Rightarrow> json \<Rightarrow> 'any Resource option
     \<Rightarrow> 'any Resource option \<times> error option" where
  "store_Resource vi v old =
     (case v of
        JNull \<Rightarrow> (None, None)
      | JObject ms \<Rightarrow>
          (case object_into (Resource_store vi) Resource_fields ms
                  (case old of None \<Rightarrow> zero_Resource | Some r \<Rightarrow> r, None) of
             (r, err) \<Rightarrow> (Some r, err))
      | _ \<Rightarrow>
          (Some (case old of None \<Rightarrow> zero_Resource | Some r \<Rightarrow> r),
           Some (UnmarshalTypeError (json_kind v) ''ans.Resource'')))"

text \<open>
  \<^verbatim>\<open>Event\<close>.
\<close>

definition Event_fields :: "string list" where
  "Event_fields =
     [''eventType'', ''eventTimestamp'', ''severity'', ''category'', ''subject'', ''body'',
      ''priority'', ''tags'', ''resource'']"

definition Event_store ::
  "(json \<Rightarrow> 'any \<times> error option) \<Rightarrow> string \<Rightarrow> json \<Rightarrow> 'any Event
     \<Rightarrow> 'any Event \<times> error option" where
  "Event_store vi name v e =
     (if name = ''eventType'' then
        (case store_string v (EventType e) of (x, err) \<Rightarrow> (e\<lparr>EventType := x\<rparr>, err))
      else if name = ''eventTimestamp'' then
        (case store_int ''int64'' v (EventTimestamp e) of
           (x, err) \<Rightarrow> (e\<lparr>EventTimestamp := x\<rparr>, err))
      else if name = ''severity'' then
        (case store_string v (Severity e) of (x, err) \<Rightarrow> (e\<lparr>Severity := x\<rparr>, err))
      else if name = ''category'' then
        (case store_string v (Category e) of (x, err) \<Rightarrow> (e\<lparr>Category := x\<rparr>, err))
      else if name = ''subject'' then
        (case store_string v (Subject e) of (x, err) \<Rightarrow> (e\<lparr>Subject := x\<rparr>, err))
      else if name = ''body'' then
        (case store_string v (Event.Body e) of (x, err) \<Rightarrow> (e\<lparr>Event.Body := x\<rparr>, err))
      else if name = ''priority'' then
        (case store_int ''int'' v (Priority e) of (x, err) \<Rightarrow> (e\<lparr>Priority := x\<rparr>, err))
      else if name = ''tags'' then
        (case store_map vi v (Event.Tags e) of (x, err) \<Rightarrow> (e\<lparr>Event.Tags := x\<rparr>, err))
      else if name = ''resource'' then
        (case store_Resource vi v (Resource e) of (x, err) \<Rightarrow> (e\<lparr>Resource := x\<rparr>, err))
      else (e, None))"

text \<open>
  \<^verbatim>\<open>json.Unmarshal(eventJSON, &event)\<close>, where \<^verbatim>\<open>event\<close> is the receiver, a pointer to the
  caller's struct: an object is stored into that struct; \<^verbatim>\<open>null\<close> sets the method's own
  copy of the pointer to nil and leaves the struct as it is.
\<close>

definition Unmarshal_Event ::
  "(json \<Rightarrow> 'any \<times> error option) \<Rightarrow> string \<Rightarrow> 'any Event \<Rightarrow> 'any Event \<times> error option" where
  "Unmarshal_Event vi data e =
     (case json_parse data of
        None \<Rightarrow> (e, Some SyntaxError)
      | Some v \<Rightarrow>
          (case v of
             JNull \<Rightarrow> (e, None)
           | JObject ms \<Rightarrow> object_into (Event_store vi) Event_fields ms (e, None)
           | _ \<Rightarrow> (e, Some (UnmarshalTypeError (json_kind v) ''ans.Event''))))"

subsection \<open>HTTP requests and the collaborators of Send\<close>

text \<open>
  \<^verbatim>\<open>http.Header\<close> is a map from keys to lists of values. \<^verbatim>\<open>Get\<close> returns the first value of
  a key, or the empty string; \<^verbatim>\<open>Add\<close> appends a value. Both put the key in canonical
  form first, which the two keys used here, \<^verbatim>\<open>Authorization\<close> and \<^verbatim>\<open>Content-Type\<close>, have
  already.
\<close>

type_synonym Header = "string \<rightharpoonup> string list"

definition Header_Get :: "Header \<Rightarrow> string \<Rightarrow> string" where
  "Header_Get h key =
     (case h key of
        None \<Rightarrow> []
      | Some [] \<Rightarrow> []
      | Some (v # _) \<Rightarrow> v)"

definition Header_Add :: "Header \<Rightarrow> string \<Rightarrow> string \<Rightarrow> Header" where
  "Header_Add h key v = h(key \<mapsto> (case h key of None \<Rightarrow> [] | Some vs \<Rightarrow> vs) @ [v])"

record Request =
  Method :: string
  URL :: string
  Header :: Header
  Body :: string

text \<open>
  Of a response, Send reads the status code and hands the body to the reader; the body is
  what its stream yields, the bytes or the failure of the read.
\<close>

record Response =
  StatusCode :: int
  Body :: "error + string"

definition MethodPost :: string where
  "MethodPost = ''POST''"

definition StatusAccepted :: int where
  "StatusAccepted = 202"

text \<open>
  Modelled from the spec: \<^verbatim>\<open>xsuaa.XSUAA\<close>, of which this package calls one method.
  \<^verbatim>\<open>SetAuthHeaderIfNotPresent\<close> is given a header collection and ensures that it has an
  \<^verbatim>\<open>Authorization\<close> entry, fetching a bearer token as needed; it returns the collection as
  it leaves it and an error when the token cannot be acquired.
\<close>

record XSUAA =
  SetAuthHeaderIfNotPresent :: "Header \<Rightarrow> error option \<times> Header"

record ANS =
  XSUAA :: XSUAA
  URL :: string

text \<open>
  What Send and MergeWithJSON call outside this package and outside the part of
  \<^verbatim>\<open>encoding/json\<close> modelled above:
  \<^item> \<^verbatim>\<open>marshalInterface\<close>: the encoding of a value stored behind \<^verbatim>\<open>interface{}\<close>, or the
    error for a value that has none;
  \<^item> \<^verbatim>\<open>valueInterface\<close>: the value that the decoder stores behind \<^verbatim>\<open>interface{}\<close> for a
    JSON value, and the error it saves when a number does not fit \<^verbatim>\<open>float64\<close>;
  \<^item> \<^verbatim>\<open>Quote\<close>: the verb \<^verbatim>\<open>%q\<close> of \<^verbatim>\<open>fmt\<close> (\<^verbatim>\<open>strconv.Quote\<close>);
  \<^item> \<^verbatim>\<open>url_Parse\<close>: the error, if any, with which \<^verbatim>\<open>http.NewRequest\<close> rejects a URL;
  \<^item> \<^verbatim>\<open>Do\<close>: \<^verbatim>\<open>http.Client.Do\<close>, the response of the server or the error of the transport;
  \<^item> \<^verbatim>\<open>ReadResponseBody\<close>: \<^verbatim>\<open>body.ReadResponseBody\<close>, the text of the body of a response or
    the error of reading it.
\<close>

record 'any env =
  marshalInterface :: "'any \<Rightarrow> error + json"
  valueInterface :: "json \<Rightarrow> 'any \<times> error option"
  Quote :: "string \<Rightarrow> string"
  url_Parse :: "string \<Rightarrow> error option"
  Do :: "Request \<Rightarrow> error + Response"
  ReadResponseBody :: "Response \<Rightarrow> error + string"

text \<open>
  \<^verbatim>\<open>http.NewRequest\<close> with a method that is valid: it fails when the URL does not parse,
  and otherwise returns a request with an empty header collection.
\<close>

definition NewRequest :: "'any env \<Rightarrow> string \<Rightarrow> string \<Rightarrow> string \<Rightarrow> error + Request" where
  "NewRequest env method url body =
     (case url_Parse env url of
        Some err \<Rightarrow> Inl err
      | None \<Rightarrow> Inr \<lparr>Method = method, Request.URL = url, Header = Map.empty, Request.Body = body\<rparr>)"

text \<open>The zero value \<^verbatim>\<open>Event{}\<close>.\<close>

definition zero_Event :: "'any Event" where
  "zero_Event =
     \<lparr>EventType = [], EventTimestamp = 0, Severity = [], Category = [], Subject = [],
      Event.Body = [], Priority = 0, Event.Tags = None, Resource = None\<rparr>"

text \<open>
  A \<^verbatim>\<open>ServiceKey\<close> whose four strings are well-formed UTF-8 (\<^verbatim>\<open>utf8.ValidString\<close>). The
  encoder writes any other byte as \<^verbatim>\<open>\ufffd\<close>, so that such a string is not read back.
\<close>

definition valid_ServiceKey :: "ServiceKey \<Rightarrow> bool" where
  "valid_ServiceKey k \<longleftrightarrow>
     ValidString (Url k) \<and> ValidString (ClientId k) \<and> ValidString (ClientSecret k) \<and>
     ValidString (OauthUrl k)"

subsection \<open>MergeWithJSON\<close>

text \<open>
  MergeWithJSON returns the error; its effect is on the receiver, which the model
  returns as the call leaves it.
\<close>

definition MergeWithJSON ::
  "'any env \<Rightarrow> 'any Event \<Rightarrow> string \<Rightarrow> 'any Event \<times> error option" where
  "MergeWithJSON env event eventJSON =
     (case Unmarshal_Event (valueInterface env) eventJSON event of
        (event', Some err) \<Rightarrow>
          (event', Some (WithMessage err
             (''error unmarshalling ANS event from JSON string '' @ Quote env eventJSON)))
      | (event', None) \<Rightarrow> (event', None))"

subsection \<open>Send\<close>

text \<open>
  Send returns an error or nil. Beside it the model returns what the call did to the
  outside, in order: that the provider of the auth header was consulted, each request
  that was constructed, each request that was handed to the HTTP client, each response
  whose body was read.
\<close>

datatype effect =
    AuthHeaderRequested
  | RequestConstructed Request
  | RequestIssued Request
  | ResponseBodyRead Response

definition eventPath :: string where
  "eventPath = ''/cf/producer/v1/resource-events''"

definition statusCodeError :: "string \<Rightarrow> int \<Rightarrow> error" where
  "statusCodeError entireUrl status =
     ErrorString (''ANS http request to '' @ [CHR 0x27] @ entireUrl @ [CHR 0x27] @
       '' failed. Did not get expected status code '' @ Itoa StatusAccepted @
       ''; instead got '' @ Itoa status)"

definition Send :: "'any env \<Rightarrow> ANS \<Rightarrow> 'any Event \<Rightarrow> error option \<times> effect list" where
  "Send env ans event =
     (case Marshal_Event (marshalInterface env) event of
        Inl err \<Rightarrow> (Some err, [])
      | Inr requestBody \<Rightarrow>
          (case SetAuthHeaderIfNotPresent (XSUAA ans) Map.empty of
             (Some err, header) \<Rightarrow> (Some err, [AuthHeaderRequested])
           | (None, header) \<Rightarrow>
               (let entireUrl = ANS.URL ans @ eventPath in
                case NewRequest env MethodPost entireUrl requestBody of
                  Inl err \<Rightarrow> (Some err, [AuthHeaderRequested])
                | Inr request0 \<Rightarrow>
                    (let request1 = request0
                           \<lparr>Header := Header_Add (Header request0) authHeaderKey
                                        (Header_Get header authHeaderKey)\<rparr>;
                         request = request1
                           \<lparr>Header := Header_Add (Header request1) ''Content-Type''
                                        ''application/json''\<rparr>;
                         log = [AuthHeaderRequested, RequestConstructed request0,
                                 RequestIssued request]
                     in
                     case Do env request of
                       Inl err \<Rightarrow> (Some err, log)
                     | Inr response \<Rightarrow>
                         if StatusCode response \<noteq> StatusAccepted then
                           (case ReadResponseBody env response of
                              Inl err \<Rightarrow>
                                (Some (WithMessage err
                                   (Error (statusCodeError entireUrl (StatusCode response)) @
                                    ''; reading response body failed'')),
                                 log @ [ResponseBodyRead response])
                            | Inr responseBody \<Rightarrow>
                                (Some (ErrorString
                                   (Error (statusCodeError entireUrl (StatusCode response)) @
                                    ''; response body: '' @ responseBody)),
                                 log @ [ResponseBodyRead response]))
                         else (None, log)))))"

text \<open>The request that Send hands to the HTTP client.\<close>

definition request_of :: "ANS \<Rightarrow> Header \<Rightarrow> string \<Rightarrow> Request" where
  "request_of ans header requestBody =
     \<lparr>Method = MethodPost, Request.URL = ANS.URL ans @ eventPath,
      Header = [authHeaderKey \<mapsto> [Header_Get header authHeaderKey],
                ''Content-Type'' \<mapsto> [''application/json'']],
      Request.Body = requestBody\<rparr>"

subsection \<open>A mock endpoint\<close>

text \<open>
  The collaborators of the package's tests: a provider that sets a fixed token, a provider
  that fails, and an endpoint that answers every request with a fixed status and body.
  Values behind \<^verbatim>\<open>interface{}\<close> are represented by the JSON value that denotes them.
\<close>
definition mock_xsuaa :: "string \<Rightarrow> XSUAA" where
  "mock_xsuaa token =
     \<lparr>SetAuthHeaderIfNotPresent =
        (\<lambda>header. (None, if Header_Get header authHeaderKey = []
                           then header(authHeaderKey \<mapsto> [token]) else header))\<rparr>"

definition failing_xsuaa :: "error \<Rightarrow> XSUAA" where
  "failing_xsuaa err = \<lparr>SetAuthHeaderIfNotPresent = (\<lambda>header. (Some err, header))\<rparr>"

definition mock_env :: "int \<Rightarrow> error + string \<Rightarrow> json env" where
  "mock_env status body =
     \<lparr>marshalInterface = Inr,
      valueInterface = (\<lambda>j. (j, None)),
      Quote = (\<lambda>s. s),
      url_Parse = (\<lambda>url. None),
      Do = (\<lambda>request. Inr \<lparr>StatusCode = status, Response.Body = body\<rparr>),
      ReadResponseBody = Response.Body\<rparr>"

definition mock_ans :: ANS where
  "mock_ans = \<lparr>XSUAA = mock_xsuaa ''Bearer token'', ANS.URL = ''https://ans.example''\<rparr>"

definition mock_event :: "json Event" where
  "mock_event =
     \<lparr>EventType = ''Piper'', EventTimestamp = 0, Severity = ''INFO'', Category = [],
      Subject = [], Event.Body = [], Priority = 1, Event.Tags = None, Resource = None\<rparr>"

definition mock_request :: Request where
  "mock_request =
     \<lparr>Method = ''POST'', Request.URL = ''https://ans.example/cf/producer/v1/resource-events'',
      Header = [''Authorization'' \<mapsto> [''Bearer token''],
                ''Content-Type'' \<mapsto> [''application/json'']],
      Request.Body = render (JObject [(''eventType'', JString ''Piper''),
         (''severity'', JString ''INFO''), (''priority'', JNumber ''1'')])\<rparr>"

definition mock_resource :: "json Resource" where
  "mock_resource =
     \<lparr>ResourceName = ''Pipeline'', ResourceType = [], ResourceInstance = [],
      Resource.Tags = Some [(''b'', JString ''y''), (''a'', JNumber ''1'')]\<rparr>"

definition mock_ServiceKey :: ServiceKey where
  \<open>mock_ServiceKey =
     \<lparr>Url = ''https://ans.example/a?b=<c>&d="e"'',
      ClientId = ''caf'' @ [CHR 0xC3, CHR 0xA9],
      ClientSecret = ''s3cr'' @ [CHR 0x5C, CHR 0x0A] @ ''et'',
      OauthUrl = []\<rparr>\<close>

section \<open>Properties of the level translation\<close>

text \<open>
  C3: TranslateLogrusLogLevel is a total function with no error result. It maps
  InfoLevel and DebugLevel to (INFO, NOTIFICATION), WarnLevel to (WARNING, ALERT),
  ErrorLevel to (ERROR, EXCEPTION), FatalLevel and PanicLevel to (FATAL, EXCEPTION), and
  every level that is none of these six to the default (INFO, NOTIFICATION).
\<close>

theorem TranslateLogrusLogLevel_table:
  "TranslateLogrusLogLevel InfoLevel = (''INFO'', ''NOTIFICATION'') \<and>
   TranslateLogrusLogLevel DebugLevel = (''INFO'', ''NOTIFICATION'') \<and>
   TranslateLogrusLogLevel WarnLevel = (''WARNING'', ''ALERT'') \<and>
   TranslateLogrusLogLevel ErrorLevel = (''ERROR'', ''EXCEPTION'') \<and>
   TranslateLogrusLogLevel FatalLevel = (''FATAL'', ''EXCEPTION'') \<and>
   TranslateLogrusLogLevel PanicLevel = (''FATAL'', ''EXCEPTION'') \<and>
   (\<forall>level. level \<notin> {InfoLevel, DebugLevel, WarnLevel, ErrorLevel, FatalLevel, PanicLevel}
      \<longrightarrow> TranslateLogrusLogLevel level = (''INFO'', ''NOTIFICATION''))"
  by (simp add: TranslateLogrusLogLevel_cases Level_defs ans_consts)

theorem TranslateLogrusLogLevel_table_witness:
  "TraceLevel \<notin> {InfoLevel, DebugLevel, WarnLevel, ErrorLevel, FatalLevel, PanicLevel} \<and>
   TranslateLogrusLogLevel TraceLevel = (''INFO'', ''NOTIFICATION'') \<and>
   (4294967295 :: Level) \<notin> {InfoLevel, DebugLevel, WarnLevel, ErrorLevel, FatalLevel, PanicLevel} \<and>
   TranslateLogrusLogLevel 4294967295 = (''INFO'', ''NOTIFICATION'')"
proof -
  have a: "TraceLevel \<notin> {InfoLevel, DebugLevel, WarnLevel, ErrorLevel, FatalLevel, PanicLevel}"
    by (simp add: Level_defs)
  have b: "(4294967295 :: Level) \<notin> {InfoLevel, DebugLevel, WarnLevel, ErrorLevel, FatalLevel, PanicLevel}"
    by (simp add: Level_defs)
  from TranslateLogrusLogLevel_table a b show ?thesis
    by blast
qed

text \<open>
  C9, as the specification states it: two levels have a clause that assigns
  (INFO, NOTIFICATION), two levels are mapped to (WARNING, ALERT) and three to
  (FATAL, EXCEPTION). The switch has one clause for (WARNING, ALERT) and two for
  (FATAL, EXCEPTION), so the statement fails.
\<close>

theorem level_counts_counterexample:
  "\<not> (count_list (map snd switch_cases) (infoSeverity, notificationCategory) = 2 \<and>
      count_list (map snd switch_cases) (warningSeverity, alertCategory) = 2 \<and>
      count_list (map snd switch_cases) (fatalSeverity, exceptionCategory) = 3)"
  by (simp add: switch_cases_def ans_consts)

text \<open>
  C9, amended: exactly two levels (InfoLevel, DebugLevel) have a clause that assigns
  (INFO, NOTIFICATION), as the default does; exactly one level (WarnLevel) is mapped to
  (WARNING, ALERT); exactly one (ErrorLevel) to (ERROR, EXCEPTION); exactly two
  (FatalLevel, PanicLevel) to (FATAL, EXCEPTION).
\<close>

theorem level_counts:
  "{l. l \<in> explicit_levels \<and> TranslateLogrusLogLevel l = (infoSeverity, notificationCategory)}
     = {InfoLevel, DebugLevel} \<and>
   card {l. l \<in> explicit_levels \<and> TranslateLogrusLogLevel l = (infoSeverity, notificationCategory)} = 2 \<and>
   {l. TranslateLogrusLogLevel l = (warningSeverity, alertCategory)} = {WarnLevel} \<and>
   card {l. TranslateLogrusLogLevel l = (warningSeverity, alertCategory)} = 1 \<and>
   {l. TranslateLogrusLogLevel l = (errorSeverity, exceptionCategory)} = {ErrorLevel} \<and>
   card {l. TranslateLogrusLogLevel l = (errorSeverity, exceptionCategory)} = 1 \<and>
   {l. TranslateLogrusLogLevel l = (fatalSeverity, exceptionCategory)} = {FatalLevel, PanicLevel} \<and>
   card {l. TranslateLogrusLogLevel l = (fatalSeverity, exceptionCategory)} = 2 \<and>
   count_list (map snd switch_cases) (infoSeverity, notificationCategory) = 2 \<and>
   count_list (map snd switch_cases) (warningSeverity, alertCategory) = 1 \<and>
   count_list (map snd switch_cases) (errorSeverity, exceptionCategory) = 1 \<and>
   count_list (map snd switch_cases) (fatalSeverity, exceptionCategory) = 2"
proof -
  have i: "{l. l \<in> explicit_levels \<and> TranslateLogrusLogLevel l = (infoSeverity, notificationCategory)}
             = {InfoLevel, DebugLevel}"
    by (auto simp: explicit_levels_eq TranslateLogrusLogLevel_cases Level_defs ans_consts)
  have w: "{l. TranslateLogrusLogLevel l = (warningSeverity, alertCategory)} = {WarnLevel}"
    by (auto simp: TranslateLogrusLogLevel_cases Level_defs ans_consts split: if_splits)
  have e: "{l. TranslateLogrusLogLevel l = (errorSeverity, exceptionCategory)} = {ErrorLevel}"
    by (auto simp: TranslateLogrusLogLevel_cases Level_defs ans_consts split: if_splits)
  have f: "{l. TranslateLogrusLogLevel l = (fatalSeverity, exceptionCategory)}
             = {FatalLevel, PanicLevel}"
    by (auto simp: TranslateLogrusLogLevel_cases Level_defs ans_consts split: if_splits)
  have ci: "card {InfoLevel, DebugLevel} = 2" and cf: "card {FatalLevel, PanicLevel} = 2"
    by (simp_all add: Level_defs)
  have cl: "count_list (map snd switch_cases) (infoSeverity, notificationCategory) = 2"
    "count_list (map snd switch_cases) (warningSeverity, alertCategory) = 1"
    "count_list (map snd switch_cases) (errorSeverity, exceptionCategory) = 1"
    "count_list (map snd switch_cases) (fatalSeverity, exceptionCategory) = 2"
    by (simp_all add: switch_cases_def ans_consts)
  show ?thesis
    unfolding i w e f using ci cf cl by simp
qed

text \<open>
  C10: for every level, the result of TranslateLogrusLogLevel is one of the four pairs
  (INFO, NOTIFICATION), (WARNING, ALERT), (ERROR, EXCEPTION), (FATAL, EXCEPTION); its
  severity is never NOTICE, a constant the package declares and no clause assigns.
\<close>

theorem TranslateLogrusLogLevel_range:
  "TranslateLogrusLogLevel level \<in>
     {(''INFO'', ''NOTIFICATION''), (''WARNING'', ''ALERT''),
      (''ERROR'', ''EXCEPTION''), (''FATAL'', ''EXCEPTION'')} \<and>
   fst (TranslateLogrusLogLevel level) \<noteq> noticeSeverity"
  by (simp add: TranslateLogrusLogLevel_cases ans_consts)

section \<open>Properties of Send\<close>

subsection \<open>Lemmas\<close>

lemma decimal_small: "n < 10 \<Longrightarrow> decimal n = [digit_char n]"
  by (simp add: decimal.simps)

lemma decimal_large: "\<not> n < 10 \<Longrightarrow> decimal n = decimal (n div 10) @ [digit_char (n mod 10)]"
  by (subst decimal.simps) simp

lemmas Itoa_simps = Itoa_def decimal_small decimal_large digit_char_def

lemma Itoa_StatusAccepted: "Itoa StatusAccepted = ''202''"
  by (simp add: StatusAccepted_def Itoa_simps)

lemma statusCodeError_message:
  "Error (statusCodeError entireUrl status) =
     (''ANS http request to '' @ [CHR 0x27]) @ entireUrl @
     ([CHR 0x27] @ '' failed. Did not get expected status code '') @ ''202'' @
     ''; instead got '' @ Itoa status"
  by (simp add: statusCodeError_def Itoa_StatusAccepted)

lemma statusCodeError_contains:
  "sublist entireUrl (Error (statusCodeError entireUrl status) @ rest)"
  "sublist ''202'' (Error (statusCodeError entireUrl status) @ rest)"
  "sublist (Itoa status) (Error (statusCodeError entireUrl status) @ rest)"
proof -
  let ?a = "''ANS http request to '' @ [CHR 0x27]"
  let ?b = "[CHR 0x27] @ '' failed. Did not get expected status code ''"
  let ?c = "''; instead got ''"
  have m: "Error (statusCodeError entireUrl status) @ rest =
             ?a @ entireUrl @ ?b @ ''202'' @ ?c @ Itoa status @ rest"
    by (simp add: statusCodeError_message)
  have "sublist entireUrl (?a @ entireUrl @ (?b @ ''202'' @ ?c @ Itoa status @ rest))"
    by (rule sublist_appendI)
  then show "sublist entireUrl (Error (statusCodeError entireUrl status) @ rest)"
    by (simp only: m)
  have "sublist ''202'' ((?a @ entireUrl @ ?b) @ ''202'' @ (?c @ Itoa status @ rest))"
    by (rule sublist_appendI)
  then show "sublist ''202'' (Error (statusCodeError entireUrl status) @ rest)"
    by (simp only: m append_assoc)
  have "sublist (Itoa status) ((?a @ entireUrl @ ?b @ ''202'' @ ?c) @ Itoa status @ rest)"
    by (rule sublist_appendI)
  then show "sublist (Itoa status) (Error (statusCodeError entireUrl status) @ rest)"
    by (simp only: m append_assoc)
qed

lemma omitempty_simps:
  "omitempty_string name [] = []"
  "omitempty_string name (c # cs) = [(name, JString (c # cs))]"
  "omitempty_int name 0 = []"
  "omitempty_map enc name None = Inr []"
  "omitempty_map enc name (Some []) = Inr []"
  "omitempty_Resource enc name None = Inr []"
  by (simp_all add: omitempty_string_def omitempty_int_def omitempty_map_def
        omitempty_Resource_def)

lemma Event_members_mock:
  "Event_members enc mock_event =
     Inr [(''eventType'', JString ''Piper''), (''severity'', JString ''INFO''),
          (''priority'', JNumber ''1'')]"
  by (simp add: Event_members_def mock_event_def omitempty_simps omitempty_int_def Itoa_simps)

lemma request_Header:
  "Header_Add (Header_Add Map.empty authHeaderKey v) ''Content-Type'' w =
     [authHeaderKey \<mapsto> [v], ''Content-Type'' \<mapsto> [w]]"
  by (simp add: Header_Add_def authHeaderKey_def)

lemma Send_marshal_error:
  "Marshal_Event (marshalInterface env) event = Inl err \<Longrightarrow> Send env ans event = (Some err, [])"
  by (simp add: Send_def)

lemma Send_auth_error:
  "Marshal_Event (marshalInterface env) event = Inr requestBody \<Longrightarrow>
   SetAuthHeaderIfNotPresent (XSUAA ans) Map.empty = (Some err, header) \<Longrightarrow>
   Send env ans event = (Some err, [AuthHeaderRequested])"
  by (simp add: Send_def)

lemma Send_url_error:
  "Marshal_Event (marshalInterface env) event = Inr requestBody \<Longrightarrow>
   SetAuthHeaderIfNotPresent (XSUAA ans) Map.empty = (None, header) \<Longrightarrow>
   url_Parse env (ANS.URL ans @ eventPath) = Some err \<Longrightarrow>
   Send env ans event = (Some err, [AuthHeaderRequested])"
  by (simp add: Send_def NewRequest_def)

lemma Send_issues:
  assumes "Marshal_Event (marshalInterface env) event = Inr requestBody"
    and "SetAuthHeaderIfNotPresent (XSUAA ans) Map.empty = (None, header)"
    and "url_Parse env (ANS.URL ans @ eventPath) = None"
  shows "Send env ans event =
     (let request = request_of ans header requestBody;
          log = [AuthHeaderRequested, RequestConstructed (request\<lparr>Header := Map.empty\<rparr>),
                 RequestIssued request]
      in
      case Do env request of
        Inl err \<Rightarrow> (Some err, log)
      | Inr response \<Rightarrow>
          if StatusCode response \<noteq> StatusAccepted then
            (case ReadResponseBody env response of
               Inl err \<Rightarrow>
                 (Some (WithMessage err
                    (Error (statusCodeError (ANS.URL ans @ eventPath) (StatusCode response)) @
                     ''; reading response body failed'')),
                  log @ [ResponseBodyRead response])
             | Inr responseBody \<Rightarrow>
                 (Some (ErrorString
                    (Error (statusCodeError (ANS.URL ans @ eventPath) (StatusCode response)) @
                     ''; response body: '' @ responseBody)),
                  log @ [ResponseBodyRead response]))
          else (None, log))"
  by (simp add: Send_def assms NewRequest_def Let_def request_Header request_of_def
        split: sum.splits)

lemma Send_issued:
  assumes "RequestIssued request \<in> set (snd (Send env ans event))"
  obtains requestBody header where
    "Marshal_Event (marshalInterface env) event = Inr requestBody"
    "SetAuthHeaderIfNotPresent (XSUAA ans) Map.empty = (None, header)"
    "url_Parse env (ANS.URL ans @ eventPath) = None"
    "request = request_of ans header requestBody"
proof (cases "Marshal_Event (marshalInterface env) event")
  case (Inl err)
  with assms show ?thesis by (simp add: Send_marshal_error)
next
  case (Inr requestBody)
  note m = this
  obtain res header where a: "SetAuthHeaderIfNotPresent (XSUAA ans) Map.empty = (res, header)"
    by (cases "SetAuthHeaderIfNotPresent (XSUAA ans) Map.empty")
  show ?thesis
  proof (cases res)
    case (Some err)
    with assms m a show ?thesis by (simp add: Send_auth_error)
  next
    case None
    note a' = a [unfolded None]
    show ?thesis
    proof (cases "url_Parse env (ANS.URL ans @ eventPath)")
      case (Some err)
      with assms m a' show ?thesis by (simp add: Send_url_error)
    next
      case None
      from assms have "request = request_of ans header requestBody"
        by (simp add: Send_issues [OF m a' None] Let_def split: sum.splits if_splits)
      with m a' None that show ?thesis by blast
    qed
  qed
qed

lemma Send_after_response:
  assumes "RequestIssued request \<in> set (snd (Send env ans event))"
    and "Do env request = Inr response"
  shows "fst (Send env ans event) =
     (if StatusCode response \<noteq> StatusAccepted then
        (case ReadResponseBody env response of
           Inl err \<Rightarrow>
             Some (WithMessage err
               (Error (statusCodeError (ANS.URL ans @ eventPath) (StatusCode response)) @
                ''; reading response body failed''))
         | Inr responseBody \<Rightarrow>
             Some (ErrorString
               (Error (statusCodeError (ANS.URL ans @ eventPath) (StatusCode response)) @
                ''; response body: '' @ responseBody)))
      else None)"
proof -
  from assms(1) obtain requestBody header where
    m: "Marshal_Event (marshalInterface env) event = Inr requestBody" and
    a: "SetAuthHeaderIfNotPresent (XSUAA ans) Map.empty = (None, header)" and
    u: "url_Parse env (ANS.URL ans @ eventPath) = None" and
    r: "request = request_of ans header requestBody"
    by (rule Send_issued)
  from assms(2) show ?thesis
    unfolding r
    by (simp add: Send_issues [OF m a u] Let_def split: sum.splits)
qed

lemma SetAuthHeaderIfNotPresent_mock:
  "SetAuthHeaderIfNotPresent (XSUAA mock_ans) Map.empty =
     (None, [''Authorization'' \<mapsto> [''Bearer token'']])"
  by (simp add: mock_ans_def mock_xsuaa_def Header_Get_def authHeaderKey_def)

lemma request_of_mock:
  "request_of mock_ans [''Authorization'' \<mapsto> [''Bearer token'']]
     (render (JObject [(''eventType'', JString ''Piper''),
         (''severity'', JString ''INFO''), (''priority'', JNumber ''1'')])) = mock_request"
  by (simp add: request_of_def mock_request_def mock_ans_def MethodPost_def eventPath_def
        authHeaderKey_def Header_Get_def)

lemma Send_mock:
  "snd (Send (mock_env status body) mock_ans mock_event) =
     [AuthHeaderRequested,
      RequestConstructed (mock_request\<lparr>Header := Map.empty\<rparr>),
      RequestIssued mock_request] @
     (if status = 202 then []
      else [ResponseBodyRead \<lparr>StatusCode = status, Response.Body = body\<rparr>])"
proof -
  have m: "Marshal_Event (marshalInterface (mock_env status body)) mock_event =
      Inr (render (JObject [(''eventType'', JString ''Piper''),
         (''severity'', JString ''INFO''), (''priority'', JNumber ''1'')]))"
    by (simp only: Marshal_Event_def Event_members_mock sum.case)
  have u: "url_Parse (mock_env status body) (ANS.URL mock_ans @ eventPath) = None"
    by (simp add: mock_env_def)
  show ?thesis
    unfolding Send_issues [OF m SetAuthHeaderIfNotPresent_mock u] request_of_mock
    by (simp add: mock_env_def StatusAccepted_def Let_def split: sum.splits)
qed

subsection \<open>The claims about Send\<close>

text \<open>
  C1: when the request that Send issued receives a response, Send returns nil if and only
  if the status code of the response is 202; with any other status code it returns an
  error.
\<close>

theorem Send_success_iff_accepted:
  assumes "RequestIssued request \<in> set (snd (Send env ans event))"
    and "Do env request = Inr response"
  shows "fst (Send env ans event) = None \<longleftrightarrow> StatusCode response = 202"
  by (simp add: Send_after_response [OF assms] StatusAccepted_def split: sum.splits)

theorem Send_success_iff_accepted_witness:
  "fst (Send (mock_env 202 (Inr [])) mock_ans mock_event) = None \<and>
   fst (Send (mock_env 500 (Inr ''server error'')) mock_ans mock_event) \<noteq> None"
proof -
  have i: "RequestIssued mock_request \<in> set (snd (Send (mock_env status body) mock_ans mock_event))"
    for status body
    by (simp add: Send_mock)
  have d: "Do (mock_env status body) mock_request = Inr \<lparr>StatusCode = status, Response.Body = body\<rparr>"
    for status body
    by (simp add: mock_env_def)
  from Send_success_iff_accepted [OF i d, of 202 "Inr []"]
    Send_success_iff_accepted [OF i d, of 500 "Inr ''server error''"]
  show ?thesis by simp
qed

text \<open>
  C4: when the response has a status other than 202 and its body is read, the message of
  the returned error contains the request URL, the expected status 202, the status of the
  response and the text of the body; when reading the body fails, the returned error
  wraps the error of the read as its cause, and its message contains the URL, the two
  statuses and the note that reading the body failed.
\<close>

theorem Send_unexpected_status:
  assumes "RequestIssued request \<in> set (snd (Send env ans event))"
    and "Do env request = Inr response"
    and "StatusCode response \<noteq> 202"
  shows "(\<forall>responseBody. ReadResponseBody env response = Inr responseBody \<longrightarrow>
            (\<exists>err. fst (Send env ans event) = Some err \<and>
                   sublist (ANS.URL ans @ ''/cf/producer/v1/resource-events'') (Error err) \<and>
                   sublist ''202'' (Error err) \<and>
                   sublist (Itoa (StatusCode response)) (Error err) \<and>
                   sublist responseBody (Error err))) \<and>
         (\<forall>cause. ReadResponseBody env response = Inl cause \<longrightarrow>
            (\<exists>msg. fst (Send env ans event) = Some (WithMessage cause msg) \<and>
                   Error (WithMessage cause msg) = msg @ '': '' @ Error cause \<and>
                   sublist (ANS.URL ans @ ''/cf/producer/v1/resource-events'') msg \<and>
                   sublist ''202'' msg \<and>
                   sublist (Itoa (StatusCode response)) msg \<and>
                   sublist ''reading response body failed'' msg))"
proof (intro conjI allI impI)
  let ?sce = "Error (statusCodeError (ANS.URL ans @ eventPath) (StatusCode response))"
  fix responseBody
  assume b: "ReadResponseBody env response = Inr responseBody"
  have s: "fst (Send env ans event) =
             Some (ErrorString (?sce @ ''; response body: '' @ responseBody))"
    using assms(3) by (simp add: Send_after_response [OF assms(1,2)] b StatusAccepted_def)
  have "sublist responseBody ((?sce @ ''; response body: '') @ responseBody)"
    by (rule sublist_append_leftI)
  then have "sublist responseBody (?sce @ ''; response body: '' @ responseBody)"
    by (simp only: append_assoc)
  with s statusCodeError_contains [where entireUrl = "ANS.URL ans @ eventPath"
      and status = "StatusCode response" and rest = "''; response body: '' @ responseBody"]
  show "\<exists>err. fst (Send env ans event) = Some err \<and>
          sublist (ANS.URL ans @ ''/cf/producer/v1/resource-events'') (Error err) \<and>
          sublist ''202'' (Error err) \<and>
          sublist (Itoa (StatusCode response)) (Error err) \<and>
          sublist responseBody (Error err)"
    by (simp add: eventPath_def)
next
  let ?sce = "Error (statusCodeError (ANS.URL ans @ eventPath) (StatusCode response))"
  fix cause
  assume b: "ReadResponseBody env response = Inl cause"
  have s: "fst (Send env ans event) =
             Some (WithMessage cause (?sce @ ''; reading response body failed''))"
    using assms(3) by (simp add: Send_after_response [OF assms(1,2)] b StatusAccepted_def)
  have "sublist ''reading response body failed''
          ((?sce @ ''; '') @ ''reading response body failed'')"
    by (rule sublist_append_leftI)
  then have "sublist ''reading response body failed'' (?sce @ ''; reading response body failed'')"
    by simp
  with s statusCodeError_contains [where entireUrl = "ANS.URL ans @ eventPath"
      and status = "StatusCode response" and rest = "''; reading response body failed''"]
  show "\<exists>msg. fst (Send env ans event) = Some (WithMessage cause msg) \<and>
          Error (WithMessage cause msg) = msg @ '': '' @ Error cause \<and>
          sublist (ANS.URL ans @ ''/cf/producer/v1/resource-events'') msg \<and>
          sublist ''202'' msg \<and>
          sublist (Itoa (StatusCode response)) msg \<and>
          sublist ''reading response body failed'' msg"
    by (simp add: eventPath_def)
qed

theorem Send_unexpected_status_witness:
  "(\<exists>err. fst (Send (mock_env 500 (Inr ''server error'')) mock_ans mock_event) = Some err \<and>
          sublist ''https://ans.example/cf/producer/v1/resource-events'' (Error err) \<and>
          sublist ''202'' (Error err) \<and> sublist ''500'' (Error err) \<and>
          sublist ''server error'' (Error err)) \<and>
   (\<exists>msg. fst (Send (mock_env 500 (Inl (ErrorString ''unexpected EOF''))) mock_ans mock_event)
            = Some (WithMessage (ErrorString ''unexpected EOF'') msg) \<and>
          Error (WithMessage (ErrorString ''unexpected EOF'') msg) = msg @ '': unexpected EOF'' \<and>
          sublist ''https://ans.example/cf/producer/v1/resource-events'' msg \<and>
          sublist ''202'' msg \<and> sublist ''500'' msg \<and>
          sublist ''reading response body failed'' msg)"
proof -
  have i: "RequestIssued mock_request \<in> set (snd (Send (mock_env 500 body) mock_ans mock_event))"
    for body
    by (simp add: Send_mock)
  have d: "Do (mock_env 500 body) mock_request = Inr \<lparr>StatusCode = 500, Response.Body = body\<rparr>"
    for body
    by (simp add: mock_env_def)
  have s: "StatusCode \<lparr>StatusCode = 500, Response.Body = body\<rparr> \<noteq> 202" for body
    by simp
  have r: "ReadResponseBody (mock_env 500 body) \<lparr>StatusCode = 500, Response.Body = body\<rparr> = body"
    for body
    by (simp add: mock_env_def)
  have n: "Itoa 500 = ''500''"
    by (simp add: Itoa_simps)
  from Send_unexpected_status [OF i d s, of "Inr ''server error''"] r [of "Inr ''server error''"]
  have a: "\<exists>err. fst (Send (mock_env 500 (Inr ''server error'')) mock_ans mock_event) = Some err \<and>
          sublist ''https://ans.example/cf/producer/v1/resource-events'' (Error err) \<and>
          sublist ''202'' (Error err) \<and> sublist ''500'' (Error err) \<and>
          sublist ''server error'' (Error err)"
    by (simp add: mock_ans_def n)
  from Send_unexpected_status [OF i d s, of "Inl (ErrorString ''unexpected EOF'')"]
    r [of "Inl (ErrorString ''unexpected EOF'')"]
  have b: "\<exists>msg. fst (Send (mock_env 500 (Inl (ErrorString ''unexpected EOF''))) mock_ans mock_event)
            = Some (WithMessage (ErrorString ''unexpected EOF'') msg) \<and>
          Error (WithMessage (ErrorString ''unexpected EOF'') msg) = msg @ '': unexpected EOF'' \<and>
          sublist ''https://ans.example/cf/producer/v1/resource-events'' msg \<and>
          sublist ''202'' msg \<and> sublist ''500'' msg \<and>
          sublist ''reading response body failed'' msg"
    by (simp add: mock_ans_def n)
  from a b show ?thesis by (rule conjI)
qed

text \<open>
  C5: when the provider of the auth header is consulted and fails, Send returns the
  provider's error, and consulting the provider is all it did: no request was
  constructed and none was issued.
\<close>

theorem Send_auth_failure:
  assumes "AuthHeaderRequested \<in> set (snd (Send env ans event))"
    and "SetAuthHeaderIfNotPresent (XSUAA ans) Map.empty = (Some err, header)"
  shows "fst (Send env ans event) = Some err \<and>
         snd (Send env ans event) = [AuthHeaderRequested] \<and>
         (\<forall>request. RequestConstructed request \<notin> set (snd (Send env ans event)) \<and>
                    RequestIssued request \<notin> set (snd (Send env ans event)))"
  using assms
  by (auto simp: Send_def split: sum.splits)

theorem Send_auth_failure_witness:
  "fst (Send (mock_env 202 (Inr [])) (mock_ans\<lparr>XSUAA := failing_xsuaa (ErrorString ''no token'')\<rparr>)
         mock_event) = Some (ErrorString ''no token'') \<and>
   snd (Send (mock_env 202 (Inr [])) (mock_ans\<lparr>XSUAA := failing_xsuaa (ErrorString ''no token'')\<rparr>)
         mock_event) = [AuthHeaderRequested]"
proof -
  let ?ans = "mock_ans\<lparr>XSUAA := failing_xsuaa (ErrorString ''no token'')\<rparr>"
  have c: "AuthHeaderRequested \<in> set (snd (Send (mock_env 202 (Inr [])) ?ans mock_event))"
    by (simp add: Send_def Marshal_Event_def Event_members_mock failing_xsuaa_def)
  have f: "SetAuthHeaderIfNotPresent (XSUAA ?ans) Map.empty = (Some (ErrorString ''no token''), Map.empty)"
    by (simp add: failing_xsuaa_def)
  from Send_auth_failure [OF c f] show ?thesis by simp
qed

text \<open>
  C7: when the event is marshalled and the provider has set the header, every request
  that Send issues is a POST to the base URL followed by /cf/producer/v1/resource-events,
  with the Authorization header that the provider left, the Content-Type
  application/json and the marshalled event as its body; and Send issues this request
  whenever the URL is accepted.
\<close>

theorem Send_request:
  assumes "Marshal_Event (marshalInterface env) event = Inr requestBody"
    and "SetAuthHeaderIfNotPresent (XSUAA ans) Map.empty = (None, header)"
  shows "(\<forall>request. RequestIssued request \<in> set (snd (Send env ans event)) \<longrightarrow>
            request =
              \<lparr>Method = ''POST'',
               Request.URL = ANS.URL ans @ ''/cf/producer/v1/resource-events'',
               Header = [''Authorization'' \<mapsto> [Header_Get header ''Authorization''],
                         ''Content-Type'' \<mapsto> [''application/json'']],
               Request.Body = requestBody\<rparr>) \<and>
         (url_Parse env (ANS.URL ans @ ''/cf/producer/v1/resource-events'') = None \<longrightarrow>
            RequestIssued
              \<lparr>Method = ''POST'',
               Request.URL = ANS.URL ans @ ''/cf/producer/v1/resource-events'',
               Header = [''Authorization'' \<mapsto> [Header_Get header ''Authorization''],
                         ''Content-Type'' \<mapsto> [''application/json'']],
               Request.Body = requestBody\<rparr> \<in> set (snd (Send env ans event)))"
proof (intro conjI allI impI)
  fix request
  assume "RequestIssued request \<in> set (snd (Send env ans event))"
  then show "request =
              \<lparr>Method = ''POST'',
               Request.URL = ANS.URL ans @ ''/cf/producer/v1/resource-events'',
               Header = [''Authorization'' \<mapsto> [Header_Get header ''Authorization''],
                         ''Content-Type'' \<mapsto> [''application/json'']],
               Request.Body = requestBody\<rparr>"
    using assms
    by (elim Send_issued) (simp add: request_of_def MethodPost_def eventPath_def authHeaderKey_def)
next
  assume "url_Parse env (ANS.URL ans @ ''/cf/producer/v1/resource-events'') = None"
  with assms show "RequestIssued
              \<lparr>Method = ''POST'',
               Request.URL = ANS.URL ans @ ''/cf/producer/v1/resource-events'',
               Header = [''Authorization'' \<mapsto> [Header_Get header ''Authorization''],
                         ''Content-Type'' \<mapsto> [''application/json'']],
               Request.Body = requestBody\<rparr> \<in> set (snd (Send env ans event))"
    by (simp add: Send_issues [OF assms] request_of_def Let_def MethodPost_def eventPath_def
          authHeaderKey_def split: sum.splits)
qed

theorem Send_request_witness:
  "RequestIssued
     \<lparr>Method = ''POST'',
      Request.URL = ''https://ans.example/cf/producer/v1/resource-events'',
      Header = [''Authorization'' \<mapsto> [''Bearer token''],
                ''Content-Type'' \<mapsto> [''application/json'']],
      Request.Body = render (JObject [(''eventType'', JString ''Piper''),
         (''severity'', JString ''INFO''), (''priority'', JNumber ''1'')])\<rparr>
   \<in> set (snd (Send (mock_env 202 (Inr [])) mock_ans mock_event))"
proof -
  have m: "Marshal_Event (marshalInterface (mock_env 202 (Inr []))) mock_event =
      Inr (render (JObject [(''eventType'', JString ''Piper''),
         (''severity'', JString ''INFO''), (''priority'', JNumber ''1'')]))"
    by (simp only: Marshal_Event_def Event_members_mock sum.case)
  have a: "SetAuthHeaderIfNotPresent (XSUAA mock_ans) Map.empty =
      (None, [''Authorization'' \<mapsto> [''Bearer token'']])"
    by (simp add: mock_ans_def mock_xsuaa_def Header_Get_def authHeaderKey_def)
  have u: "url_Parse (mock_env 202 (Inr [])) (ANS.URL mock_ans @ ''/cf/producer/v1/resource-events'') = None"
    by (simp add: mock_env_def)
  from Send_request [OF m a] u show ?thesis
    by (simp add: mock_ans_def Header_Get_def)
qed


section \<open>Properties of json.Marshal on the structs\<close>


lemma map_of_omitempty_string:
  "map_of (omitempty_string name s @ rest) k =
     (if k = name \<and> s \<noteq> [] then Some (JString s) else map_of rest k)"
  by (simp add: omitempty_string_def)

lemma map_of_omitempty_int:
  "map_of (omitempty_int name i @ rest) k =
     (if k = name \<and> i \<noteq> 0 then Some (JNumber (Itoa (sint i))) else map_of rest k)"
  by (simp add: omitempty_int_def)

lemma encode_entries_length: "encode_entries enc kvs = Inr js \<Longrightarrow> length js = length kvs"
  by (induction kvs arbitrary: js) (auto split: sum.splits)

lemma omitempty_map_cases:
  assumes "omitempty_map enc name m = Inr ts"
  shows "(ts = [] \<and> (m = None \<or> m = Some [])) \<or>
         (\<exists>kvs js. m = Some kvs \<and> kvs \<noteq> [] \<and> js \<noteq> [] \<and> ts = [(name, JObject js)])"
proof (cases m)
  case None
  with assms show ?thesis by (simp add: omitempty_map_def)
next
  case (Some kvs)
  show ?thesis
  proof (cases "kvs = []")
    case True
    with assms Some show ?thesis by (simp add: omitempty_map_def)
  next
    case False
    with assms Some obtain js where
      e: "encode_entries enc (sort_key fst kvs) = Inr js" and t: "ts = [(name, JObject js)]"
      by (auto simp: omitempty_map_def split: sum.splits)
    from encode_entries_length [OF e] False have "js \<noteq> []" by auto
    with Some False t show ?thesis by simp
  qed
qed

lemma omitempty_Resource_cases:
  assumes "omitempty_Resource enc name p = Inr ts"
  shows "(ts = [] \<and> p = None) \<or> (\<exists>r ms. p = Some r \<and> ts = [(name, JObject ms)])"
  using assms by (cases p) (auto simp: omitempty_Resource_def split: sum.splits)

lemma decimal_not_Nil: "decimal n \<noteq> []"
  by (subst decimal.simps) simp

lemma decimal_zero_iff: "decimal n = ''0'' \<longleftrightarrow> n = 0"
proof
  assume a: "decimal n = ''0''"
  show "n = 0"
  proof (cases "n < 10")
    case True
    with a have "digit_char n = CHR ''0''" by (simp add: decimal_small)
    moreover from True have "n \<in> {0, 1, 2, 3, 4, 5, 6, 7, 8, 9}" by auto
    ultimately show ?thesis by (auto simp: digit_char_def)
  next
    case False
    with a have "decimal (n div 10) @ [digit_char (n mod 10)] = ''0''"
      by (simp add: decimal_large)
    then have "decimal (n div 10) = []" by (metis butlast_snoc butlast.simps(2))
    with decimal_not_Nil show ?thesis by blast
  qed
next
  assume "n = 0"
  then show "decimal n = ''0''" by (simp add: decimal_small digit_char_def)
qed

lemma Itoa_zero_iff: "Itoa i = ''0'' \<longleftrightarrow> i = 0"
  by (auto simp: Itoa_def decimal_zero_iff)

lemma Itoa_sint_nonzero: "(i :: int64) \<noteq> 0 \<Longrightarrow> Itoa (sint i) \<noteq> ''0''"
  by (simp add: Itoa_zero_iff signed_eq_0_iff)

lemma omitempty_map_map_of:
  assumes "omitempty_map enc name m = Inr ts"
  obtains js where "js \<noteq> []" and
    "\<forall>k rest. map_of (ts @ rest) k =
       (if k = name \<and> m \<noteq> None \<and> m \<noteq> Some [] then Some (JObject js) else map_of rest k)"
proof -
  from omitempty_map_cases [OF assms]
  consider "ts = []" "m = None \<or> m = Some []"
    | kvs js where "m = Some kvs" "kvs \<noteq> []" "js \<noteq> []" "ts = [(name, JObject js)]"
    by blast
  then show ?thesis
  proof cases
    case 1
    then have "\<forall>k rest. map_of (ts @ rest) k =
       (if k = name \<and> m \<noteq> None \<and> m \<noteq> Some [] then Some (JObject [([], JNull)]) else map_of rest k)"
      by auto
    then show ?thesis using that [of "[([], JNull)]"] by simp
  next
    case 2
    then have "\<forall>k rest. map_of (ts @ rest) k =
       (if k = name \<and> m \<noteq> None \<and> m \<noteq> Some [] then Some (JObject js) else map_of rest k)"
      by simp
    with 2(3) show ?thesis using that [of js] by simp
  qed
qed

lemma omitempty_Resource_map_of:
  assumes "omitempty_Resource enc name p = Inr ts"
  obtains rs where
    "\<forall>k. map_of ts k = (if k = name \<and> p \<noteq> None then Some (JObject rs) else None)"
proof -
  from omitempty_Resource_cases [OF assms]
  consider "ts = []" "p = None" | r ms where "p = Some r" "ts = [(name, JObject ms)]"
    by blast
  then show ?thesis
  proof cases
    case 1
    then show ?thesis using that [of "[]"] by simp
  next
    case 2
    then show ?thesis using that [of ms] by simp
  qed
qed

lemma keys_of_map_of: "fst ` set ms \<subseteq> S \<longleftrightarrow> (\<forall>k. map_of ms k \<noteq> None \<longrightarrow> k \<in> S)"
  by (auto simp: dom_map_of_conv_image_fst [symmetric])

lemma omitempty_map_value:
  assumes "omitempty_map enc name (Some kvs) = Inr ts" and "kvs \<noteq> []"
  shows "\<exists>js. encode_entries enc (sort_key fst kvs) = Inr js \<and> ts = [(name, JObject js)]"
  using assms by (auto simp: omitempty_map_def split: sum.splits)

lemma omitempty_Resource_value:
  assumes "omitempty_Resource enc name (Some r) = Inr ts"
  shows "\<exists>ms. Resource_members enc r = Inr ms \<and> ts = [(name, JObject ms)]"
  using assms by (auto simp: omitempty_Resource_def split: sum.splits)

lemma distinct_subseq: "subseq xs ys \<Longrightarrow> distinct ys \<Longrightarrow> distinct xs"
  using subseqs_distinctD [of xs ys] by simp

lemma subseq_omitempty_string:
  "subseq (map fst rest) fs \<Longrightarrow> subseq (map fst (omitempty_string name s @ rest)) (name # fs)"
  by (auto simp: omitempty_string_def)

lemma subseq_omitempty_int:
  "subseq (map fst rest) fs \<Longrightarrow> subseq (map fst (omitempty_int name i @ rest)) (name # fs)"
  by (auto simp: omitempty_int_def)

lemma subseq_omitempty_map:
  assumes "omitempty_map enc name m = Inr ts" and "subseq (map fst rest) fs"
  shows "subseq (map fst (ts @ rest)) (name # fs)"
  using omitempty_map_cases [OF assms(1)] assms(2) by auto

lemma subseq_omitempty_Resource:
  assumes "omitempty_Resource enc name p = Inr ts"
  shows "subseq (map fst ts) [name]"
  using omitempty_Resource_cases [OF assms] by auto

lemma Resource_members_omitempty:
  assumes a: "Resource_members enc r = Inr ms"
  shows "map_of ms ''resourceName'' =
        (if ResourceName r = [] then None else Some (JString (ResourceName r)))"
    and "map_of ms ''resourceType'' =
        (if ResourceType r = [] then None else Some (JString (ResourceType r)))"
    and "map_of ms ''resourceInstance'' =
        (if ResourceInstance r = [] then None else Some (JString (ResourceInstance r)))"
    and "map_of ms ''tags'' = None \<longleftrightarrow> Resource.Tags r = None \<or> Resource.Tags r = Some []"
    and "\<forall>kvs. Resource.Tags r = Some kvs \<and> kvs \<noteq> [] \<longrightarrow>
          (\<exists>js. encode_entries enc (sort_key fst kvs) = Inr js \<and>
                map_of ms ''tags'' = Some (JObject js))"
    and "fst ` set ms \<subseteq> set Resource_fields"
    and "subseq (map fst ms) Resource_fields"
    and "distinct (map fst ms)"
    and "\<forall>k. map_of ms k \<notin> {Some (JString []), Some (JNumber ''0''), Some JNull}"
    and "map_of ms ''tags'' \<noteq> Some (JObject [])"
proof -
  from a obtain tags where
    t: "omitempty_map enc ''tags'' (Resource.Tags r) = Inr tags" and
    ms: "ms = omitempty_string ''resourceName'' (ResourceName r) @
              omitempty_string ''resourceType'' (ResourceType r) @
              omitempty_string ''resourceInstance'' (ResourceInstance r) @
              tags @ []"
    by (auto simp: Resource_members_def split: sum.splits)
  from t obtain js where js: "js \<noteq> []" and
    mt': "\<forall>k rest. map_of (tags @ rest) k =
       (if k = ''tags'' \<and> Resource.Tags r \<noteq> None \<and> Resource.Tags r \<noteq> Some []
        then Some (JObject js) else map_of rest k)"
    by (rule omitempty_map_map_of)
  note mt = mt' [rule_format]
  have m: "map_of ms k =
      (if k = ''resourceName'' \<and> ResourceName r \<noteq> [] then Some (JString (ResourceName r))
       else if k = ''resourceType'' \<and> ResourceType r \<noteq> []
       then Some (JString (ResourceType r))
       else if k = ''resourceInstance'' \<and> ResourceInstance r \<noteq> []
       then Some (JString (ResourceInstance r))
       else if k = ''tags'' \<and> Resource.Tags r \<noteq> None \<and> Resource.Tags r \<noteq> Some []
       then Some (JObject js)
       else None)" for k
    unfolding ms by (simp only: map_of_omitempty_string mt map_of.simps)
  show "map_of ms ''resourceName'' =
        (if ResourceName r = [] then None else Some (JString (ResourceName r)))"
    by (simp add: m)
  show "map_of ms ''resourceType'' =
        (if ResourceType r = [] then None else Some (JString (ResourceType r)))"
    by (simp add: m)
  show "map_of ms ''resourceInstance'' =
        (if ResourceInstance r = [] then None else Some (JString (ResourceInstance r)))"
    by (simp add: m)
  show "map_of ms ''tags'' = None \<longleftrightarrow> Resource.Tags r = None \<or> Resource.Tags r = Some []"
    by (simp add: m)
  show "\<forall>kvs. Resource.Tags r = Some kvs \<and> kvs \<noteq> [] \<longrightarrow>
          (\<exists>js. encode_entries enc (sort_key fst kvs) = Inr js \<and>
                map_of ms ''tags'' = Some (JObject js))"
  proof (intro allI impI)
    fix kvs
    assume k: "Resource.Tags r = Some kvs \<and> kvs \<noteq> []"
    with t obtain js' where
      e: "encode_entries enc (sort_key fst kvs) = Inr js'" and
      v: "tags = [(''tags'', JObject js')]"
      using omitempty_map_value [of enc "''tags''" kvs tags] by auto
    from mt [where k = "''tags''" and rest = "[]"] k v have "js = js'" by simp
    with e k show "\<exists>js. encode_entries enc (sort_key fst kvs) = Inr js \<and>
                map_of ms ''tags'' = Some (JObject js)"
      by (simp add: m)
  qed
  show "fst ` set ms \<subseteq> set Resource_fields"
    unfolding keys_of_map_of by (simp add: m Resource_fields_def split: if_splits)
  have st: "subseq (map fst (tags @ [])) [''tags'']"
    by (rule subseq_omitempty_map [OF t]) simp
  show s: "subseq (map fst ms) Resource_fields"
    unfolding ms Resource_fields_def
    by (rule subseq_omitempty_string)+ (rule st)
  have "distinct Resource_fields" by (simp add: Resource_fields_def)
  with s show "distinct (map fst ms)" by (rule distinct_subseq)
  from js show "map_of ms ''tags'' \<noteq> Some (JObject [])"
    by (simp add: m)
  show "\<forall>k. map_of ms k \<notin> {Some (JString []), Some (JNumber ''0''), Some JNull}"
  proof
    fix k
    show "map_of ms k \<notin> {Some (JString []), Some (JNumber ''0''), Some JNull}"
      by (simp add: m)
  qed
qed


lemma Event_members_omitempty:
  assumes a: "Event_members enc e = Inr ms"
  shows "map_of ms ''eventType'' =
        (if EventType e = [] then None else Some (JString (EventType e)))"
    and "map_of ms ''eventTimestamp'' =
        (if EventTimestamp e = 0 then None
         else Some (JNumber (Itoa (sint (EventTimestamp e)))))"
    and "map_of ms ''severity'' =
        (if Severity e = [] then None else Some (JString (Severity e)))"
    and "map_of ms ''category'' =
        (if Category e = [] then None else Some (JString (Category e)))"
    and "map_of ms ''subject'' =
        (if Subject e = [] then None else Some (JString (Subject e)))"
    and "map_of ms ''body'' =
        (if Event.Body e = [] then None else Some (JString (Event.Body e)))"
    and "map_of ms ''priority'' =
        (if Priority e = 0 then None else Some (JNumber (Itoa (sint (Priority e)))))"
    and "map_of ms ''tags'' = None \<longleftrightarrow> Event.Tags e = None \<or> Event.Tags e = Some []"
    and "\<forall>kvs. Event.Tags e = Some kvs \<and> kvs \<noteq> [] \<longrightarrow>
          (\<exists>js. encode_entries enc (sort_key fst kvs) = Inr js \<and>
                map_of ms ''tags'' = Some (JObject js))"
    and "map_of ms ''resource'' = None \<longleftrightarrow> Resource e = None"
    and "\<forall>r. Resource e = Some r \<longrightarrow>
          (\<exists>rms. Resource_members enc r = Inr rms \<and>
                 map_of ms ''resource'' = Some (JObject rms))"
    and "fst ` set ms \<subseteq> set Event_fields"
    and "subseq (map fst ms) Event_fields"
    and "distinct (map fst ms)"
    and "\<forall>k. map_of ms k \<notin> {Some (JString []), Some (JNumber ''0''), Some JNull}"
    and "map_of ms ''tags'' \<noteq> Some (JObject [])"
proof -
  from a obtain tags resource where
    t: "omitempty_map enc ''tags'' (Event.Tags e) = Inr tags" and
    r: "omitempty_Resource enc ''resource'' (Resource e) = Inr resource" and
    ms: "ms = omitempty_string ''eventType'' (EventType e) @
              omitempty_int ''eventTimestamp'' (EventTimestamp e) @
              omitempty_string ''severity'' (Severity e) @
              omitempty_string ''category'' (Category e) @
              omitempty_string ''subject'' (Subject e) @
              omitempty_string ''body'' (Event.Body e) @
              omitempty_int ''priority'' (Priority e) @
              tags @ resource"
    by (auto simp: Event_members_def split: sum.splits)
  from t obtain js where js: "js \<noteq> []" and
    mt': "\<forall>k rest. map_of (tags @ rest) k =
       (if k = ''tags'' \<and> Event.Tags e \<noteq> None \<and> Event.Tags e \<noteq> Some []
        then Some (JObject js) else map_of rest k)"
    by (rule omitempty_map_map_of)
  note mt = mt' [rule_format]
  from r obtain rs where
    mr': "\<forall>k. map_of resource k =
       (if k = ''resource'' \<and> Resource e \<noteq> None then Some (JObject rs) else None)"
    by (rule omitempty_Resource_map_of)
  note mr = mr' [rule_format]
  have m: "map_of ms k =
      (if k = ''eventType'' \<and> EventType e \<noteq> [] then Some (JString (EventType e))
       else if k = ''eventTimestamp'' \<and> EventTimestamp e \<noteq> 0
       then Some (JNumber (Itoa (sint (EventTimestamp e))))
       else if k = ''severity'' \<and> Severity e \<noteq> [] then Some (JString (Severity e))
       else if k = ''category'' \<and> Category e \<noteq> [] then Some (JString (Category e))
       else if k = ''subject'' \<and> Subject e \<noteq> [] then Some (JString (Subject e))
       else if k = ''body'' \<and> Event.Body e \<noteq> [] then Some (JString (Event.Body e))
       else if k = ''priority'' \<and> Priority e \<noteq> 0
       then Some (JNumber (Itoa (sint (Priority e))))
       else if k = ''tags'' \<and> Event.Tags e \<noteq> None \<and> Event.Tags e \<noteq> Some []
       then Some (JObject js)
       else if k = ''resource'' \<and> Resource e \<noteq> None then Some (JObject rs)
       else None)" for k
    unfolding ms by (simp only: map_of_omitempty_string map_of_omitempty_int mt mr)
  show "map_of ms ''eventType'' =
        (if EventType e = [] then None else Some (JString (EventType e)))"
    by (simp add: m)
  show "map_of ms ''eventTimestamp'' =
        (if EventTimestamp e = 0 then None
         else Some (JNumber (Itoa (sint (EventTimestamp e)))))"
    by (simp add: m)
  show "map_of ms ''severity'' =
        (if Severity e = [] then None else Some (JString (Severity e)))"
    by (simp add: m)
  show "map_of ms ''category'' =
        (if Category e = [] then None else Some (JString (Category e)))"
    by (simp add: m)
  show "map_of ms ''subject'' =
        (if Subject e = [] then None else Some (JString (Subject e)))"
    by (simp add: m)
  show "map_of ms ''body'' =
        (if Event.Body e = [] then None else Some (JString (Event.Body e)))"
    by (simp add: m)
  show "map_of ms ''priority'' =
        (if Priority e = 0 then None else Some (JNumber (Itoa (sint (Priority e)))))"
    by (simp add: m)
  show "map_of ms ''tags'' = None \<longleftrightarrow> Event.Tags e = None \<or> Event.Tags e = Some []"
    by (simp add: m)
  show "\<forall>kvs. Event.Tags e = Some kvs \<and> kvs \<noteq> [] \<longrightarrow>
          (\<exists>js. encode_entries enc (sort_key fst kvs) = Inr js \<and>
                map_of ms ''tags'' = Some (JObject js))"
  proof (intro allI impI)
    fix kvs
    assume k: "Event.Tags e = Some kvs \<and> kvs \<noteq> []"
    with t obtain js' where
      e: "encode_entries enc (sort_key fst kvs) = Inr js'" and
      v: "tags = [(''tags'', JObject js')]"
      using omitempty_map_value [of enc "''tags''" kvs tags] by auto
    from mt [where k = "''tags''" and rest = "[]"] k v have "js = js'" by simp
    with e k show "\<exists>js. encode_entries enc (sort_key fst kvs) = Inr js \<and>
                map_of ms ''tags'' = Some (JObject js)"
      by (simp add: m)
  qed
  show "map_of ms ''resource'' = None \<longleftrightarrow> Resource e = None"
    by (simp add: m)
  show "\<forall>r. Resource e = Some r \<longrightarrow>
          (\<exists>rms. Resource_members enc r = Inr rms \<and>
                 map_of ms ''resource'' = Some (JObject rms))"
  proof (intro allI impI)
    fix r'
    assume k: "Resource e = Some r'"
    with r obtain rms where
      e: "Resource_members enc r' = Inr rms" and
      v: "resource = [(''resource'', JObject rms)]"
      using omitempty_Resource_value [of enc "''resource''" r' resource] by auto
    from mr [where k = "''resource''"] k v have "rs = rms" by simp
    with e k show "\<exists>rms. Resource_members enc r' = Inr rms \<and>
                 map_of ms ''resource'' = Some (JObject rms)"
      by (simp add: m)
  qed
  show "fst ` set ms \<subseteq> set Event_fields"
    unfolding keys_of_map_of by (simp add: m Event_fields_def split: if_splits)
  have st: "subseq (map fst (tags @ resource)) [''tags'', ''resource'']"
    by (rule subseq_omitempty_map [OF t]) (rule subseq_omitempty_Resource [OF r])
  show s: "subseq (map fst ms) Event_fields"
    unfolding ms Event_fields_def
    by (rule subseq_omitempty_string subseq_omitempty_int)+ (rule st)
  have "distinct Event_fields" by (simp add: Event_fields_def)
  with s show "distinct (map fst ms)" by (rule distinct_subseq)
  show "\<forall>k. map_of ms k \<notin> {Some (JString []), Some (JNumber ''0''), Some JNull}"
  proof
    fix k
    show "map_of ms k \<notin> {Some (JString []), Some (JNumber ''0''), Some JNull}"
      by (simp add: m Itoa_sint_nonzero)
  qed
  from js show "map_of ms ''tags'' \<noteq> Some (JObject [])"
    by (simp add: m)
qed

lemma Marshal_Event_Inr:
  "Marshal_Event enc e = Inr text \<longleftrightarrow>
     (\<exists>ms. Event_members enc e = Inr ms \<and> text = render (JObject ms))"
  by (auto simp: Marshal_Event_def split: sum.splits)

lemma Marshal_Resource_Inr:
  "Marshal_Resource enc r = Inr text \<longleftrightarrow>
     (\<exists>ms. Resource_members enc r = Inr ms \<and> text = render (JObject ms))"
  by (auto simp: Marshal_Resource_def split: sum.splits)

lemma Resource_members_mock:
  "Resource_members Inr mock_resource =
     Inr [(''resourceName'', JString ''Pipeline''),
          (''tags'', JObject [(''a'', JNumber ''1''), (''b'', JString ''y'')])]"
  by (simp add: Resource_members_def mock_resource_def omitempty_string_def omitempty_map_def
        less_eq_char_def)

lemma Event_members_mock_resource:
  "Event_members Inr
     (mock_event\<lparr>Event.Tags := Some [(''stage'', JString ''build'')],
                 Resource := Some mock_resource\<rparr>) =
     Inr [(''eventType'', JString ''Piper''), (''severity'', JString ''INFO''),
          (''priority'', JNumber ''1''),
          (''tags'', JObject [(''stage'', JString ''build'')]),
          (''resource'', JObject [(''resourceName'', JString ''Pipeline''),
             (''tags'', JObject [(''a'', JNumber ''1''), (''b'', JString ''y'')])])]"
  by (simp add: Event_members_def mock_event_def omitempty_simps omitempty_int_def
        Itoa_simps omitempty_Resource_def Resource_members_mock omitempty_map_def)

lemma Marshal_Event_mock_resource:
  \<open>Marshal_Event Inr
     (mock_event\<lparr>Event.Tags := Some [(''stage'', JString ''build'')],
                 Resource := Some mock_resource\<rparr>) =
   Inr ''{"eventType":"Piper","severity":"INFO","priority":1,"tags":{"stage":"build"},"resource":{"resourceName":"Pipeline","tags":{"a":1,"b":"y"}}}''\<close>
  by (simp add: Marshal_Event_def Event_members_mock_resource appendString_def htmlSafe_def)

text \<open>
  C8: the object that json.Marshal writes for an Event has a member for a field exactly
  when the field is not empty (a string or a map of length 0, an integer 0, a nil
  pointer), and the member then carries the field's value: the string, the decimal numeral
  of the integer, for \<^verbatim>\<open>tags\<close> the object of the encoded entries in the order of their keys,
  and for \<^verbatim>\<open>resource\<close> the object of the members of the Resource pointed to. The same
  holds of every Resource, hence of the object nested under \<^verbatim>\<open>resource\<close> as well. In
  both objects the members follow the order of the fields, no name occurs twice, no
  member has the value of an empty string, of the integer 0 or of nil, and no tags member
  is an empty object. The text that json.Marshal returns is the text of that object; the
  zero Event and the zero Resource are written as the empty object. The entries of a tags
  map are the caller's values and are written as the encoder of \<^verbatim>\<open>interface{}\<close> gives
  them.
\<close>

theorem Marshal_omitempty:
  "(\<forall>ms. Event_members enc e = Inr ms \<longrightarrow>
      map_of ms ''eventType'' =
        (if EventType e = [] then None else Some (JString (EventType e))) \<and>
      map_of ms ''eventTimestamp'' =
        (if EventTimestamp e = 0 then None
         else Some (JNumber (Itoa (sint (EventTimestamp e))))) \<and>
      map_of ms ''severity'' =
        (if Severity e = [] then None else Some (JString (Severity e))) \<and>
      map_of ms ''category'' =
        (if Category e = [] then None else Some (JString (Category e))) \<and>
      map_of ms ''subject'' =
        (if Subject e = [] then None else Some (JString (Subject e))) \<and>
      map_of ms ''body'' =
        (if Event.Body e = [] then None else Some (JString (Event.Body e))) \<and>
      map_of ms ''priority'' =
        (if Priority e = 0 then None else Some (JNumber (Itoa (sint (Priority e))))) \<and>
      (map_of ms ''tags'' = None \<longleftrightarrow> Event.Tags e = None \<or> Event.Tags e = Some []) \<and>
      (\<forall>kvs. Event.Tags e = Some kvs \<and> kvs \<noteq> [] \<longrightarrow>
         (\<exists>js. encode_entries enc (sort_key fst kvs) = Inr js \<and>
               map_of ms ''tags'' = Some (JObject js))) \<and>
      (map_of ms ''resource'' = None \<longleftrightarrow> Resource e = None) \<and>
      (\<forall>r. Resource e = Some r \<longrightarrow>
         (\<exists>rms. Resource_members enc r = Inr rms \<and>
                map_of ms ''resource'' = Some (JObject rms))) \<and>
      fst ` set ms \<subseteq> set Event_fields \<and>
      subseq (map fst ms) Event_fields \<and>
      distinct (map fst ms) \<and>
      (\<forall>k. map_of ms k \<notin> {Some (JString []), Some (JNumber ''0''), Some JNull}) \<and>
      map_of ms ''tags'' \<noteq> Some (JObject [])) \<and>
   (\<forall>r ms. Resource_members enc r = Inr ms \<longrightarrow>
      map_of ms ''resourceName'' =
        (if ResourceName r = [] then None else Some (JString (ResourceName r))) \<and>
      map_of ms ''resourceType'' =
        (if ResourceType r = [] then None else Some (JString (ResourceType r))) \<and>
      map_of ms ''resourceInstance'' =
        (if ResourceInstance r = [] then None else Some (JString (ResourceInstance r))) \<and>
      (map_of ms ''tags'' = None \<longleftrightarrow> Resource.Tags r = None \<or> Resource.Tags r = Some []) \<and>
      (\<forall>kvs. Resource.Tags r = Some kvs \<and> kvs \<noteq> [] \<longrightarrow>
         (\<exists>js. encode_entries enc (sort_key fst kvs) = Inr js \<and>
               map_of ms ''tags'' = Some (JObject js))) \<and>
      fst ` set ms \<subseteq> set Resource_fields \<and>
      subseq (map fst ms) Resource_fields \<and>
      distinct (map fst ms) \<and>
      (\<forall>k. map_of ms k \<notin> {Some (JString []), Some (JNumber ''0''), Some JNull}) \<and>
      map_of ms ''tags'' \<noteq> Some (JObject [])) \<and>
   (\<forall>text. Marshal_Event enc e = Inr text \<longleftrightarrow>
      (\<exists>ms. Event_members enc e = Inr ms \<and> text = render (JObject ms))) \<and>
   (\<forall>r text. Marshal_Resource enc r = Inr text \<longleftrightarrow>
      (\<exists>ms. Resource_members enc r = Inr ms \<and> text = render (JObject ms))) \<and>
   Marshal_Event enc zero_Event = Inr ''{}'' \<and>
   Marshal_Resource enc zero_Resource = Inr ''{}''"
proof -
  have E: "\<forall>ms. Event_members enc e = Inr ms \<longrightarrow>
      map_of ms ''eventType'' =
        (if EventType e = [] then None else Some (JString (EventType e))) \<and>
      map_of ms ''eventTimestamp'' =
        (if EventTimestamp e = 0 then None
         else Some (JNumber (Itoa (sint (EventTimestamp e))))) \<and>
      map_of ms ''severity'' =
        (if Severity e = [] then None else Some (JString (Severity e))) \<and>
      map_of ms ''category'' =
        (if Category e = [] then None else Some (JString (Category e))) \<and>
      map_of ms ''subject'' =
        (if Subject e = [] then None else Some (JString (Subject e))) \<and>
      map_of ms ''body'' =
        (if Event.Body e = [] then None else Some (JString (Event.Body e))) \<and>
      map_of ms ''priority'' =
        (if Priority e = 0 then None else Some (JNumber (Itoa (sint (Priority e))))) \<and>
      (map_of ms ''tags'' = None \<longleftrightarrow> Event.Tags e = None \<or> Event.Tags e = Some []) \<and>
      (\<forall>kvs. Event.Tags e = Some kvs \<and> kvs \<noteq> [] \<longrightarrow>
         (\<exists>js. encode_entries enc (sort_key fst kvs) = Inr js \<and>
               map_of ms ''tags'' = Some (JObject js))) \<and>
      (map_of ms ''resource'' = None \<longleftrightarrow> Resource e = None) \<and>
      (\<forall>r. Resource e = Some r \<longrightarrow>
         (\<exists>rms. Resource_members enc r = Inr rms \<and>
                map_of ms ''resource'' = Some (JObject rms))) \<and>
      fst ` set ms \<subseteq> set Event_fields \<and>
      subseq (map fst ms) Event_fields \<and>
      distinct (map fst ms) \<and>
      (\<forall>k. map_of ms k \<notin> {Some (JString []), Some (JNumber ''0''), Some JNull}) \<and>
      map_of ms ''tags'' \<noteq> Some (JObject [])"
  proof (intro allI impI)
    fix ms
    assume a: "Event_members enc e = Inr ms"
    note f = Event_members_omitempty [OF a]
    from f(1) f(2) f(3) f(4) f(5) f(6) f(7) f(8) f(9) f(10) f(11) f(12) f(13) f(14) f(15) f(16)
    show "map_of ms ''eventType'' =
        (if EventType e = [] then None else Some (JString (EventType e))) \<and>
      map_of ms ''eventTimestamp'' =
        (if EventTimestamp e = 0 then None
         else Some (JNumber (Itoa (sint (EventTimestamp e))))) \<and>
      map_of ms ''severity'' =
        (if Severity e = [] then None else Some (JString (Severity e))) \<and>
      map_of ms ''category'' =
        (if Category e = [] then None else Some (JString (Category e))) \<and>
      map_of ms ''subject'' =
        (if Subject e = [] then None else Some (JString (Subject e))) \<and>
      map_of ms ''body'' =
        (if Event.Body e = [] then None else Some (JString (Event.Body e))) \<and>
      map_of ms ''priority'' =
        (if Priority e = 0 then None else Some (JNumber (Itoa (sint (Priority e))))) \<and>
      (map_of ms ''tags'' = None \<longleftrightarrow> Event.Tags e = None \<or> Event.Tags e = Some []) \<and>
      (\<forall>kvs. Event.Tags e = Some kvs \<and> kvs \<noteq> [] \<longrightarrow>
         (\<exists>js. encode_entries enc (sort_key fst kvs) = Inr js \<and>
               map_of ms ''tags'' = Some (JObject js))) \<and>
      (map_of ms ''resource'' = None \<longleftrightarrow> Resource e = None) \<and>
      (\<forall>r. Resource e = Some r \<longrightarrow>
         (\<exists>rms. Resource_members enc r = Inr rms \<and>
                map_of ms ''resource'' = Some (JObject rms))) \<and>
      fst ` set ms \<subseteq> set Event_fields \<and>
      subseq (map fst ms) Event_fields \<and>
      distinct (map fst ms) \<and>
      (\<forall>k. map_of ms k \<notin> {Some (JString []), Some (JNumber ''0''), Some JNull}) \<and>
      map_of ms ''tags'' \<noteq> Some (JObject [])"
      by (intro conjI)
  qed
  have R: "\<forall>r ms. Resource_members enc r = Inr ms \<longrightarrow>
      map_of ms ''resourceName'' =
        (if ResourceName r = [] then None else Some (JString (ResourceName r))) \<and>
      map_of ms ''resourceType'' =
        (if ResourceType r = [] then None else Some (JString (ResourceType r))) \<and>
      map_of ms ''resourceInstance'' =
        (if ResourceInstance r = [] then None else Some (JString (ResourceInstance r))) \<and>
      (map_of ms ''tags'' = None \<longleftrightarrow> Resource.Tags r = None \<or> Resource.Tags r = Some []) \<and>
      (\<forall>kvs. Resource.Tags r = Some kvs \<and> kvs \<noteq> [] \<longrightarrow>
         (\<exists>js. encode_entries enc (sort_key fst kvs) = Inr js \<and>
               map_of ms ''tags'' = Some (JObject js))) \<and>
      fst ` set ms \<subseteq> set Resource_fields \<and>
      subseq (map fst ms) Resource_fields \<and>
      distinct (map fst ms) \<and>
      (\<forall>k. map_of ms k \<notin> {Some (JString []), Some (JNumber ''0''), Some JNull}) \<and>
      map_of ms ''tags'' \<noteq> Some (JObject [])"
  proof (intro allI impI)
    fix r ms
    assume a: "Resource_members enc r = Inr ms"
    note f = Resource_members_omitempty [OF a]
    from f(1) f(2) f(3) f(4) f(5) f(6) f(7) f(8) f(9) f(10)
    show "map_of ms ''resourceName'' =
        (if ResourceName r = [] then None else Some (JString (ResourceName r))) \<and>
      map_of ms ''resourceType'' =
        (if ResourceType r = [] then None else Some (JString (ResourceType r))) \<and>
      map_of ms ''resourceInstance'' =
        (if ResourceInstance r = [] then None else Some (JString (ResourceInstance r))) \<and>
      (map_of ms ''tags'' = None \<longleftrightarrow> Resource.Tags r = None \<or> Resource.Tags r = Some []) \<and>
      (\<forall>kvs. Resource.Tags r = Some kvs \<and> kvs \<noteq> [] \<longrightarrow>
         (\<exists>js. encode_entries enc (sort_key fst kvs) = Inr js \<and>
               map_of ms ''tags'' = Some (JObject js))) \<and>
      fst ` set ms \<subseteq> set Resource_fields \<and>
      subseq (map fst ms) Resource_fields \<and>
      distinct (map fst ms) \<and>
      (\<forall>k. map_of ms k \<notin> {Some (JString []), Some (JNumber ''0''), Some JNull}) \<and>
      map_of ms ''tags'' \<noteq> Some (JObject [])"
      by (intro conjI)
  qed
  have Z: "Marshal_Event enc zero_Event = Inr ''{}''"
    by (simp add: Marshal_Event_def Event_members_def zero_Event_def omitempty_simps)
  have Z': "Marshal_Resource enc zero_Resource = Inr ''{}''"
    by (simp add: Marshal_Resource_def Resource_members_def zero_Resource_def omitempty_simps)
  show ?thesis
    by (intro conjI E R Z Z' allI Marshal_Event_Inr Marshal_Resource_Inr)
qed


theorem Marshal_omitempty_witness:
  \<open>Event_members Inr
     (mock_event\<lparr>Event.Tags := Some [(''stage'', JString ''build'')],
                 Resource := Some mock_resource\<rparr>) =
     Inr [(''eventType'', JString ''Piper''), (''severity'', JString ''INFO''),
          (''priority'', JNumber ''1''),
          (''tags'', JObject [(''stage'', JString ''build'')]),
          (''resource'', JObject [(''resourceName'', JString ''Pipeline''),
             (''tags'', JObject [(''a'', JNumber ''1''), (''b'', JString ''y'')])])] \<and>
   Resource (mock_event\<lparr>Event.Tags := Some [(''stage'', JString ''build'')],
                        Resource := Some mock_resource\<rparr>) = Some mock_resource \<and>
   Resource_members Inr mock_resource =
     Inr [(''resourceName'', JString ''Pipeline''),
          (''tags'', JObject [(''a'', JNumber ''1''), (''b'', JString ''y'')])] \<and>
   Resource.Tags mock_resource = Some [(''b'', JString ''y''), (''a'', JNumber ''1'')] \<and>
   encode_entries Inr (sort_key fst [(''b'', JString ''y''), (''a'', JNumber ''1'')]) =
     Inr [(''a'', JNumber ''1''), (''b'', JString ''y'')] \<and>
   map_of [(''resourceName'', JString ''Pipeline''),
           (''tags'', JObject [(''a'', JNumber ''1''), (''b'', JString ''y'')])]
      ''resourceType'' = None \<and>
   map_of [(''eventType'', JString ''Piper''), (''severity'', JString ''INFO''),
           (''priority'', JNumber ''1''),
           (''tags'', JObject [(''stage'', JString ''build'')]),
           (''resource'', JObject [(''resourceName'', JString ''Pipeline''),
              (''tags'', JObject [(''a'', JNumber ''1''), (''b'', JString ''y'')])])]
      ''category'' = None \<and>
   Marshal_Event Inr
     (mock_event\<lparr>Event.Tags := Some [(''stage'', JString ''build'')],
                 Resource := Some mock_resource\<rparr>) =
   Inr ''{"eventType":"Piper","severity":"INFO","priority":1,"tags":{"stage":"build"},"resource":{"resourceName":"Pipeline","tags":{"a":1,"b":"y"}}}''\<close>
  using Marshal_omitempty [of Inr
      "mock_event\<lparr>Event.Tags := Some [(''stage'', JString ''build'')],
                  Resource := Some mock_resource\<rparr>"]
    Event_members_mock_resource Resource_members_mock Marshal_Event_mock_resource
  by (simp add: mock_resource_def less_eq_char_def)

section \<open>Properties of the JSON text\<close>

subsection \<open>UTF-8: decoding and encoding a well-formed sequence\<close>




lemma mod_off:
  fixes p :: nat
  assumes "k * m \<le> p" "p < k * m + m"
  shows "p mod m = p - k * m"
proof -
  from assms(1) obtain d where p: "p = k * m + d" by (auto simp: le_iff_add)
  with assms(2) have "d < m" by simp
  then show ?thesis unfolding p by simp
qed

lemma lead_mod:
  fixes p b :: nat
  shows "192 \<le> p \<Longrightarrow> p \<le> 223 \<Longrightarrow> p mod 32 = p - 192"
    and "224 \<le> p \<Longrightarrow> p \<le> 239 \<Longrightarrow> p mod 16 = p - 224"
    and "240 \<le> p \<Longrightarrow> p \<le> 247 \<Longrightarrow> p mod 8 = p - 240"
    and "128 \<le> b \<Longrightarrow> b \<le> 191 \<Longrightarrow> b mod 64 = b - 128"
  using mod_off [of 6 32 p] mod_off [of 14 16 p] mod_off [of 30 8 p] mod_off [of 2 64 b]
  by simp_all

lemma split2:
  fixes q x :: nat
  assumes "x < 64"
  shows "(q * 64 + x) div 64 = q" and "(q * 64 + x) mod 64 = x"
  using assms by simp_all

lemma n64: "(64::nat) * 64 = 4096" "(64::nat) * 4096 = 262144"
  by simp_all

lemma div4096: "(r :: nat) div 4096 = r div 64 div 64"
  using div_mult2_eq [of r 64 64] unfolding n64 .

lemma div262144: "(r :: nat) div 262144 = r div 64 div 64 div 64"
  using div_mult2_eq [of r 64 4096] unfolding n64 div4096 .

lemma split3:
  fixes a x y :: nat
  assumes "x < 64" "y < 64"
  shows "(a * 4096 + x * 64 + y) div 4096 = a"
    and "(a * 4096 + x * 64 + y) div 64 mod 64 = x"
    and "(a * 4096 + x * 64 + y) mod 64 = y"
proof -
  define q where "q = a * 64 + x"
  have e: "a * 4096 + x * 64 + y = q * 64 + y" by (simp add: q_def algebra_simps)
  have d: "(q * 64 + y) div 64 = q" and m: "(q * 64 + y) mod 64 = y"
    using assms(2) by (rule split2)+
  show "(a * 4096 + x * 64 + y) mod 64 = y" by (simp only: e m)
  have qd: "q div 64 = a" and qm: "q mod 64 = x"
    unfolding q_def using assms(1) by (rule split2)+
  show "(a * 4096 + x * 64 + y) div 64 mod 64 = x" by (simp only: e d qm)
  show "(a * 4096 + x * 64 + y) div 4096 = a" by (simp only: e div4096 d qd)
qed

lemma split4:
  fixes a x y z :: nat
  assumes "x < 64" "y < 64" "z < 64"
  shows "(a * 262144 + x * 4096 + y * 64 + z) div 262144 = a"
    and "(a * 262144 + x * 4096 + y * 64 + z) div 4096 mod 64 = x"
    and "(a * 262144 + x * 4096 + y * 64 + z) div 64 mod 64 = y"
    and "(a * 262144 + x * 4096 + y * 64 + z) mod 64 = z"
proof -
  define q1 where "q1 = a * 64 + x"
  define q2 where "q2 = q1 * 64 + y"
  have e: "a * 262144 + x * 4096 + y * 64 + z = q2 * 64 + z" by (simp add: q1_def q2_def algebra_simps)
  have d: "(q2 * 64 + z) div 64 = q2" and m: "(q2 * 64 + z) mod 64 = z"
    using assms(3) by (rule split2)+
  have d2: "q2 div 64 = q1" and m2: "q2 mod 64 = y"
    unfolding q2_def using assms(2) by (rule split2)+
  have d1: "q1 div 64 = a" and m1: "q1 mod 64 = x"
    unfolding q1_def using assms(1) by (rule split2)+
  show "(a * 262144 + x * 4096 + y * 64 + z) mod 64 = z" by (simp only: e m)
  show "(a * 262144 + x * 4096 + y * 64 + z) div 64 mod 64 = y" by (simp only: e d m2)
  show "(a * 262144 + x * 4096 + y * 64 + z) div 4096 mod 64 = x"
    by (simp only: e div4096 d d2 m1)
  show "(a * 262144 + x * 4096 + y * 64 + z) div 262144 = a"
    by (simp only: e div262144 d d2 d1)
qed


lemma dec2:
  fixes p b :: nat
  assumes "194 \<le> p" "p \<le> 223" "128 \<le> b" "b \<le> 191"
  shows "\<exists>a x. p = 192 + a \<and> b = 128 + x \<and> 2 \<le> a \<and> a < 32 \<and> x < 64 \<and>
           p mod 32 * 64 + b mod 64 = a * 64 + x"
proof -
  have m: "p mod 32 = p - 192" "b mod 64 = b - 128"
    using assms by (simp_all add: lead_mod)
  show ?thesis
    apply (rule exI [of _ "p - 192"])
    apply (rule exI [of _ "b - 128"])
    using assms by (auto simp: m)
qed

lemma dec3:
  fixes p b c :: nat
  assumes "224 \<le> p" "p \<le> 239" "lo \<le> b" "b \<le> hi" "128 \<le> lo" "hi \<le> 191"
    "p = 224 \<longrightarrow> lo = 160" "p = 237 \<longrightarrow> hi = 159" "128 \<le> c" "c \<le> 191"
  shows "\<exists>a x y. p = 224 + a \<and> b = 128 + x \<and> c = 128 + y \<and> a < 16 \<and> x < 64 \<and> y < 64 \<and>
           (a = 0 \<longrightarrow> 32 \<le> x) \<and> (a = 13 \<longrightarrow> x < 32) \<and>
           p mod 16 * 4096 + b mod 64 * 64 + c mod 64 = a * 4096 + x * 64 + y"
proof -
  have m: "p mod 16 = p - 224" "b mod 64 = b - 128" "c mod 64 = c - 128"
    using assms by (simp_all add: lead_mod)
  show ?thesis
    apply (rule exI [of _ "p - 224"])
    apply (rule exI [of _ "b - 128"])
    apply (rule exI [of _ "c - 128"])
    using assms by (auto simp: m)
qed

lemma dec4:
  fixes p b c d :: nat
  assumes "240 \<le> p" "p \<le> 244" "lo \<le> b" "b \<le> hi" "128 \<le> lo" "hi \<le> 191"
    "p = 240 \<longrightarrow> lo = 144" "p = 244 \<longrightarrow> hi = 143" "128 \<le> c" "c \<le> 191" "128 \<le> d" "d \<le> 191"
  shows "\<exists>a x y z. p = 240 + a \<and> b = 128 + x \<and> c = 128 + y \<and> d = 128 + z \<and>
           a < 5 \<and> x < 64 \<and> y < 64 \<and> z < 64 \<and>
           (a = 0 \<longrightarrow> 16 \<le> x) \<and> (a = 4 \<longrightarrow> x < 16) \<and>
           p mod 8 * 262144 + b mod 64 * 4096 + c mod 64 * 64 + d mod 64 =
             a * 262144 + x * 4096 + y * 64 + z"
proof -
  have m: "p mod 8 = p - 240" "b mod 64 = b - 128" "c mod 64 = c - 128" "d mod 64 = d - 128"
    using assms by (simp_all add: lead_mod)
  show ?thesis
    apply (rule exI [of _ "p - 240"])
    apply (rule exI [of _ "b - 128"])
    apply (rule exI [of _ "c - 128"])
    apply (rule exI [of _ "d - 128"])
    using assms by (auto simp: m)
qed

lemma first_cases:
  assumes "first p = Some (sz, lo, hi)"
  shows "(sz = 2 \<and> 194 \<le> p \<and> p \<le> 223 \<and> lo = 128 \<and> hi = 191) \<or>
         (sz = 3 \<and> 224 \<le> p \<and> p \<le> 239 \<and> 128 \<le> lo \<and> hi \<le> 191 \<and>
            (p = 224 \<longrightarrow> lo = 160) \<and> (p = 237 \<longrightarrow> hi = 159)) \<or>
         (sz = 4 \<and> 240 \<le> p \<and> p \<le> 244 \<and> 128 \<le> lo \<and> hi \<le> 191 \<and>
            (p = 240 \<longrightarrow> lo = 144) \<and> (p = 244 \<longrightarrow> hi = 143))"
  using assms by (simp add: first_def split: if_splits)

lemma offset: "(k :: nat) \<le> n \<Longrightarrow> \<exists>d. n = k + d"
  by (auto simp: le_iff_add)


lemma DecodeRune_multibyte:
  assumes d: "DecodeRune (c # cs) = (r, n)"
    and v: "\<not> (r = RuneError \<and> n = 1)"
    and na: "\<not> (of_char c :: nat) < 0x80"
  shows "n \<le> length (c # cs) \<and>
         (n = 2 \<and> seq2 (take n (c # cs)) r \<or> n = 3 \<and> seq3 (take n (c # cs)) r \<or>
          n = 4 \<and> seq4 (take n (c # cs)) r)"
proof -
  let ?p0 = "of_char c :: nat"
  from d v na obtain sz lo hi where f: "first ?p0 = Some (sz, lo, hi)"
    by (cases "first ?p0") (auto simp: DecodeRune_def)
  from d v na f have len: "\<not> length (c # cs) < sz"
    by (auto simp: DecodeRune_def)
  from first_cases [OF f] have "2 \<le> sz" by auto
  with len obtain c1 cs1 where cs: "cs = c1 # cs1"
    by (cases cs) auto
  let ?b1 = "of_char c1 :: nat"
  define rest where
    "rest = (if sz \<le> 2 then (?p0 mod 32 * 64 + ?b1 mod 64, 2 :: nat)
             else
               (let b2 = (of_char ((c # cs) ! 2) :: nat) in
                if \<not> continuation ((c # cs) ! 2) then (RuneError, 1)
                else if sz \<le> 3
                then (?p0 mod 16 * 4096 + ?b1 mod 64 * 64 + b2 mod 64, 3)
                else
                  (let b3 = (of_char ((c # cs) ! 3) :: nat) in
                   if \<not> continuation ((c # cs) ! 3) then (RuneError, 1)
                   else (?p0 mod 8 * 262144 + ?b1 mod 64 * 4096 + b2 mod 64 * 64 + b3 mod 64, 4))))"
  have e1: "DecodeRune (c # cs) = (if ?b1 < lo \<or> hi < ?b1 then (RuneError, 1) else rest)"
    using na f len unfolding rest_def cs by (simp add: DecodeRune_def Let_def)
  with d v have b1: "lo \<le> ?b1" "?b1 \<le> hi" and r1: "rest = (r, n)"
    by (simp_all split: if_splits)
  from first_cases [OF f]
  consider (two) "sz = 2" "194 \<le> ?p0" "?p0 \<le> 223" "lo = 128" "hi = 191"
    | (three) "sz = 3" "224 \<le> ?p0" "?p0 \<le> 239" "128 \<le> lo" "hi \<le> 191"
        "?p0 = 224 \<longrightarrow> lo = 160" "?p0 = 237 \<longrightarrow> hi = 159"
    | (four) "sz = 4" "240 \<le> ?p0" "?p0 \<le> 244" "128 \<le> lo" "hi \<le> 191"
        "?p0 = 240 \<longrightarrow> lo = 144" "?p0 = 244 \<longrightarrow> hi = 143"
    by blast
  then show ?thesis
  proof cases
    case two
    from r1 two(1) have rn: "r = ?p0 mod 32 * 64 + ?b1 mod 64" "n = 2"
      by (simp_all add: rest_def)
    from b1 two have "128 \<le> ?b1" "?b1 \<le> 191" by simp_all
    from dec2 [OF two(2,3) this] obtain a x where
      "?p0 = 192 + a" "?b1 = 128 + x" "2 \<le> a" "a < 32" "x < 64"
      "?p0 mod 32 * 64 + ?b1 mod 64 = a * 64 + x"
      by blast
    then have "seq2 [c, c1] r" unfolding seq2_def rn by blast
    with rn(2) cs show ?thesis by simp
  next
    case three
    with len cs obtain c2 cs2 where cs1: "cs1 = c2 # cs2"
      by (cases cs1) auto
    let ?b2 = "of_char c2 :: nat"
    have e2: "rest = (if \<not> continuation c2 then (RuneError, 1)
                      else (?p0 mod 16 * 4096 + ?b1 mod 64 * 64 + ?b2 mod 64, 3))"
      unfolding rest_def cs cs1 using three(1) by (simp add: Let_def)
    with r1 v have c2: "continuation c2"
      and rn: "r = ?p0 mod 16 * 4096 + ?b1 mod 64 * 64 + ?b2 mod 64" "n = 3"
      by (simp_all split: if_splits)
    from c2 have b2: "128 \<le> ?b2" "?b2 \<le> 191" by (simp_all add: continuation_def)
    from dec3 [OF three(2,3) b1 three(4,5,6,7) b2] obtain a x y where
      "?p0 = 224 + a" "?b1 = 128 + x" "?b2 = 128 + y" "a < 16" "x < 64" "y < 64"
      "a = 0 \<longrightarrow> 32 \<le> x" "a = 13 \<longrightarrow> x < 32"
      "?p0 mod 16 * 4096 + ?b1 mod 64 * 64 + ?b2 mod 64 = a * 4096 + x * 64 + y"
      by blast
    then have "seq3 [c, c1, c2] r" unfolding seq3_def rn by blast
    with rn(2) cs cs1 show ?thesis by simp
  next
    case four
    with len cs obtain c2 c3 cs3 where cs1: "cs1 = c2 # c3 # cs3"
      by (cases cs1; cases "tl cs1") auto
    let ?b2 = "of_char c2 :: nat"
    let ?b3 = "of_char c3 :: nat"
    have e2: "rest = (if \<not> continuation c2 then (RuneError, 1)
                      else if \<not> continuation c3 then (RuneError, 1)
                      else (?p0 mod 8 * 262144 + ?b1 mod 64 * 4096 + ?b2 mod 64 * 64
                              + ?b3 mod 64, 4))"
      unfolding rest_def cs cs1 using four(1) by (simp add: Let_def)
    with r1 v have c2: "continuation c2" and c3: "continuation c3"
      and rn: "r = ?p0 mod 8 * 262144 + ?b1 mod 64 * 4096 + ?b2 mod 64 * 64 + ?b3 mod 64"
        "n = 4"
      by (simp_all split: if_splits)
    from c2 c3 have b2: "128 \<le> ?b2" "?b2 \<le> 191" and b3: "128 \<le> ?b3" "?b3 \<le> 191"
      by (simp_all add: continuation_def)
    from dec4 [OF four(2,3) b1 four(4,5,6,7) b2 b3] obtain a x y z where
      "?p0 = 240 + a" "?b1 = 128 + x" "?b2 = 128 + y" "?b3 = 128 + z"
      "a < 5" "x < 64" "y < 64" "z < 64" "a = 0 \<longrightarrow> 16 \<le> x" "a = 4 \<longrightarrow> x < 16"
      "?p0 mod 8 * 262144 + ?b1 mod 64 * 4096 + ?b2 mod 64 * 64 + ?b3 mod 64 =
         a * 262144 + x * 4096 + y * 64 + z"
      by blast
    then have "seq4 [c, c1, c2, c3] r" unfolding seq4_def rn by blast
    with rn(2) cs cs1 show ?thesis by simp
  qed
qed


lemma EncodeRune_width:
  "r \<le> 127 \<Longrightarrow> EncodeRune r = [char_of r]"
  "127 < r \<Longrightarrow> r \<le> 2047 \<Longrightarrow>
     EncodeRune r = [char_of (192 + r div 64), char_of (128 + r mod 64)]"
  "2047 < r \<Longrightarrow> r \<le> 65535 \<Longrightarrow> r < 55296 \<or> 57343 < r \<Longrightarrow>
     EncodeRune r = [char_of (224 + r div 4096), char_of (128 + r div 64 mod 64),
                     char_of (128 + r mod 64)]"
  "65535 < r \<Longrightarrow> r \<le> 1114111 \<Longrightarrow>
     EncodeRune r = [char_of (240 + r div 262144), char_of (128 + r div 4096 mod 64),
                     char_of (128 + r div 64 mod 64), char_of (128 + r mod 64)]"
  by (auto simp: EncodeRune_def)

lemma off_mod:
  fixes a :: nat
  shows "a < 32 \<Longrightarrow> (192 + a) mod 32 = a"
    and "a < 16 \<Longrightarrow> (224 + a) mod 16 = a"
    and "a < 8 \<Longrightarrow> (240 + a) mod 8 = a"
    and "a < 64 \<Longrightarrow> (128 + a) mod 64 = a"
  using lead_mod(1) [of "192 + a"] lead_mod(2) [of "224 + a"] lead_mod(3) [of "240 + a"]
    lead_mod(4) [of "128 + a"]
  by simp_all

lemma first_off:
  "2 \<le> a \<Longrightarrow> a < 32 \<Longrightarrow> first (192 + a) = Some (2, 128, 191)"
  "a < 16 \<Longrightarrow> first (224 + a) =
     Some (3, if a = 0 then 160 else 128, if a = 13 then 159 else 191)"
  "a < 5 \<Longrightarrow> first (240 + a) =
     Some (4, if a = 0 then 144 else 128, if a = 4 then 143 else 191)"
  by (auto simp: first_def)

lemma seq2_codec:
  assumes "seq2 p r"
  shows "EncodeRune r = p" and "DecodeRune (p @ t) = (r, 2)" and "length p = 2"
    and "r \<noteq> 8232" and "r \<noteq> 8233" and "\<not> (of_char (hd p) :: nat) < 128"
proof -
  from assms obtain c0 c1 a x where p: "p = [c0, c1]" and
    c0: "of_char c0 = 192 + a" and c1: "of_char c1 = 128 + x" and
    b: "2 \<le> a" "a < 32" "x < 64" and r: "r = a * 64 + x"
    unfolding seq2_def by blast
  from b have w: "127 < a * 64 + x" "a * 64 + x \<le> 2047" by simp_all
  have "EncodeRune (a * 64 + x) = [char_of (192 + a), char_of (128 + x)]"
    by (simp only: EncodeRune_width(2) [OF w] split2 [OF b(3)])
  also have "\<dots> = [c0, c1]"
    by (simp only: c0 [symmetric] c1 [symmetric] char_of_char)
  finally show "EncodeRune r = p" unfolding r p .
  show "length p = 2" by (simp add: p)
  from w show "r \<noteq> 8232" "r \<noteq> 8233" unfolding r by simp_all
  show "\<not> (of_char (hd p) :: nat) < 128" by (simp add: p c0)
  have "\<not> continuation c1 \<Longrightarrow> False" using c1 b by (simp add: continuation_def)
  show "DecodeRune (p @ t) = (r, 2)"
    using b unfolding p r
    by (simp add: DecodeRune_def Let_def c0 c1 first_off off_mod)
qed

lemma seq3_codec:
  assumes "seq3 p r"
  shows "EncodeRune r = p" and "DecodeRune (p @ t) = (r, 3)" and "length p = 3"
    and "\<not> (of_char (hd p) :: nat) < 128"
proof -
  from assms obtain c0 c1 c2 a x y where p: "p = [c0, c1, c2]" and
    c0: "of_char c0 = 224 + a" and c1: "of_char c1 = 128 + x" and c2: "of_char c2 = 128 + y" and
    b: "a < 16" "x < 64" "y < 64" and b': "a = 0 \<longrightarrow> 32 \<le> x" "a = 13 \<longrightarrow> x < 32" and
    r: "r = a * 4096 + x * 64 + y"
    unfolding seq3_def by blast
  from b b' have w12: "2047 < a * 4096 + x * 64 + y" "a * 4096 + x * 64 + y \<le> 65535"
    by auto
  consider "a \<le> 12" | "a = 13" | "14 \<le> a" by linarith
  then have "a * 4096 + x * 64 + y < 55296 \<or> 57343 < a * 4096 + x * 64 + y"
  proof cases
    case 1
    with b show ?thesis by simp
  next
    case 2
    with b b' show ?thesis by simp
  next
    case 3
    then show ?thesis by simp
  qed
  note w = w12 this
  have "EncodeRune (a * 4096 + x * 64 + y) =
          [char_of (224 + a), char_of (128 + x), char_of (128 + y)]"
    by (simp only: EncodeRune_width(3) [OF w] split3 [OF b(2,3)])
  also have "\<dots> = [c0, c1, c2]"
    by (simp only: c0 [symmetric] c1 [symmetric] c2 [symmetric] char_of_char)
  finally show "EncodeRune r = p" unfolding r p .
  show "length p = 3" by (simp add: p)
  show "\<not> (of_char (hd p) :: nat) < 128" by (simp add: p c0)
  show "DecodeRune (p @ t) = (r, 3)"
    using b b' unfolding p r
    by (auto simp: DecodeRune_def Let_def c0 c1 c2 first_off off_mod continuation_def)
qed

lemma seq4_codec:
  assumes "seq4 p r"
  shows "EncodeRune r = p" and "DecodeRune (p @ t) = (r, 4)" and "length p = 4"
    and "r \<noteq> 8232" and "r \<noteq> 8233" and "\<not> (of_char (hd p) :: nat) < 128"
proof -
  from assms obtain c0 c1 c2 c3 a x y z where p: "p = [c0, c1, c2, c3]" and
    c0: "of_char c0 = 240 + a" and c1: "of_char c1 = 128 + x" and c2: "of_char c2 = 128 + y" and
    c3: "of_char c3 = 128 + z" and
    b: "a < 5" "x < 64" "y < 64" "z < 64" and b': "a = 0 \<longrightarrow> 16 \<le> x" "a = 4 \<longrightarrow> x < 16" and
    r: "r = a * 262144 + x * 4096 + y * 64 + z"
    unfolding seq4_def by blast
  from b b' have w: "65535 < a * 262144 + x * 4096 + y * 64 + z"
    "a * 262144 + x * 4096 + y * 64 + z \<le> 1114111"
    by auto
  have "EncodeRune (a * 262144 + x * 4096 + y * 64 + z) =
          [char_of (240 + a), char_of (128 + x), char_of (128 + y), char_of (128 + z)]"
    by (simp only: EncodeRune_width(4) [OF w] split4 [OF b(2,3,4)])
  also have "\<dots> = [c0, c1, c2, c3]"
    by (simp only: c0 [symmetric] c1 [symmetric] c2 [symmetric] c3 [symmetric] char_of_char)
  finally show "EncodeRune r = p" unfolding r p .
  show "length p = 4" by (simp add: p)
  from w show "r \<noteq> 8232" "r \<noteq> 8233" unfolding r by simp_all
  show "\<not> (of_char (hd p) :: nat) < 128" by (simp add: p c0)
  from b have a8: "a < 8" by simp
  show "DecodeRune (p @ t) = (r, 4)"
    using b b' a8 unfolding p r
    by (auto simp: DecodeRune_def Let_def c0 c1 c2 c3 first_off off_mod continuation_def)
qed


lemma DecodeRune_valid:
  assumes d: "DecodeRune (c # cs) = (r, n)"
    and v: "\<not> (r = RuneError \<and> n = 1)"
    and na: "\<not> (of_char c :: nat) < 0x80"
  shows "EncodeRune r = take n (c # cs)"
    and "DecodeRune (take n (c # cs) @ t) = (r, n)"
    and "length (take n (c # cs)) = n"
    and "2 \<le> n"
    and "n = 2 \<Longrightarrow> r \<noteq> 8232 \<and> r \<noteq> 8233"
    and "n = 4 \<Longrightarrow> r \<noteq> 8232 \<and> r \<noteq> 8233"
proof -
  from DecodeRune_multibyte [OF d v na]
  have l: "n \<le> length (c # cs)" and
    k: "n = 2 \<and> seq2 (take n (c # cs)) r \<or> n = 3 \<and> seq3 (take n (c # cs)) r \<or>
        n = 4 \<and> seq4 (take n (c # cs)) r"
    by blast+
  from l show "length (take n (c # cs)) = n" by simp
  from k show "2 \<le> n" by auto
  from k show "EncodeRune r = take n (c # cs)"
    using seq2_codec(1) seq3_codec(1) seq4_codec(1) by blast
  from k show "DecodeRune (take n (c # cs) @ t) = (r, n)"
    using seq2_codec(2) seq3_codec(2) seq4_codec(2) by blast
  from k show "n = 2 \<Longrightarrow> r \<noteq> 8232 \<and> r \<noteq> 8233"
    using seq2_codec(4,5) by auto
  from k show "n = 4 \<Longrightarrow> r \<noteq> 8232 \<and> r \<noteq> 8233"
    using seq4_codec(4,5) by auto
qed

lemma hexval_hex: "d < 16 \<Longrightarrow> hexval (hex d) = Some d"
proof -
  assume "d < 16"
  then have "d \<in> {0, 1, 2, 3, 4, 5, 6, 7, 8, 9, 10, 11, 12, 13, 14, 15}" by simp arith
  then show ?thesis by (auto simp: hex_def hexval_def)
qed

lemma getu4_ascii:
  assumes "b < 128"
  shows "getu4 (CHR 0x5C # CHR ''u'' # CHR ''0'' # CHR ''0'' # hex (b div 16) # hex (b mod 16) # t)
           = Some b"
proof -
  from assms have "b div 16 < 16" by simp
  then have h1: "hexval (hex (b div 16)) = Some (b div 16)" by (rule hexval_hex)
  have h2: "hexval (hex (b mod 16)) = Some (b mod 16)" by (rule hexval_hex) simp
  have h0: "hexval CHR ''0'' = Some 0" by (simp add: hexval_def)
  show ?thesis by (simp add: h0 h1 h2)
qed

lemma getu4_2028:
  "getu4 (CHR 0x5C # CHR ''u'' # CHR ''2'' # CHR ''0'' # CHR ''2'' # CHR ''8'' # t) = Some 8232"
  "getu4 (CHR 0x5C # CHR ''u'' # CHR ''2'' # CHR ''0'' # CHR ''2'' # CHR ''9'' # t) = Some 8233"
  by (simp_all add: hexval_def)

lemma emit_Some: "emit bytes (Some (t, rest)) = Some (bytes @ t, rest)"
  by (simp add: emit_def)

lemma unquote_plain:
  "c \<noteq> CHR 0x22 \<Longrightarrow> c \<noteq> CHR 0x5C \<Longrightarrow> \<not> (of_char c :: nat) < 32 \<Longrightarrow> (of_char c :: nat) < 128 \<Longrightarrow>
   unquote (c # cs) = emit [c] (unquote cs)"
  by simp

lemma unquote_simple:
  "simple_escape e = Some b \<Longrightarrow> e \<noteq> CHR ''u'' \<Longrightarrow>
   unquote (CHR 0x5C # e # es) = emit [b] (unquote es)"
  by simp

lemma unquote_u:
  "getu4 (CHR 0x5C # CHR ''u'' # es) = Some rr \<Longrightarrow> \<not> IsSurrogate rr \<Longrightarrow>
   unquote (CHR 0x5C # CHR ''u'' # es) = emit (EncodeRune rr) (unquote (drop 4 es))"
  by simp

lemma unquote_multibyte:
  "\<not> (of_char c :: nat) < 128 \<Longrightarrow> DecodeRune (c # cs) = (rr, n) \<Longrightarrow>
   unquote (c # cs) = emit (EncodeRune rr) (unquote (drop n (c # cs)))"
proof -
  assume a: "\<not> (of_char c :: nat) < 128" and d: "DecodeRune (c # cs) = (rr, n)"
  from a have "c \<noteq> CHR 0x22" "c \<noteq> CHR 0x5C" "\<not> (of_char c :: nat) < 32" by auto
  with a d show ?thesis by simp
qed


lemma ValidString_ascii:
  "(of_char c :: nat) < 128 \<Longrightarrow> ValidString (c # cs) = ValidString cs"
  by (simp add: DecodeRune_def RuneError_def)

lemma unquote_escape_ascii:
  assumes a: "(of_char c :: nat) < 128"
    and ih: "unquote (escape cs @ CHR 0x22 # rest) = Some (cs, rest)"
  shows "unquote (escape (c # cs) @ CHR 0x22 # rest) = Some (c # cs, rest)"
proof (cases "htmlSafe c")
  case True
  then have "c \<noteq> CHR 0x22" "c \<noteq> CHR 0x5C" "\<not> (of_char c :: nat) < 32"
    by (auto simp: htmlSafe_def)
  with a True show ?thesis
    by (simp add: unquote_plain ih emit_Some)
next
  case False
  note ns = this
  consider (q) "c = CHR 0x5C \<or> c = CHR 0x22"
    | (b) "c = CHR 0x08" | (f) "c = CHR 0x0C" | (n) "c = CHR 0x0A" | (r) "c = CHR 0x0D"
    | (t) "c = CHR 0x09"
    | (u) "c \<noteq> CHR 0x5C" "c \<noteq> CHR 0x22" "c \<noteq> CHR 0x08" "c \<noteq> CHR 0x0C" "c \<noteq> CHR 0x0A"
          "c \<noteq> CHR 0x0D" "c \<noteq> CHR 0x09"
    by blast
  then show ?thesis
  proof cases
    case q
    then have e: "escape (c # cs) = CHR 0x5C # c # escape cs"
      by (auto simp: htmlSafe_def)
    from q have se: "simple_escape c = Some c" and nu: "c \<noteq> CHR ''u''"
      by (auto simp: simple_escape_def)
    show ?thesis
      unfolding e append_Cons
      by (simp only: unquote_simple [OF se nu] ih emit_Some append.simps)
  next
    case b
    have e: "escape (CHR 0x08 # cs) = CHR 0x5C # CHR ''b'' # escape cs"
      by (simp add: htmlSafe_def)
    have se: "simple_escape CHR ''b'' = Some (CHR 0x08)" and nu: "CHR ''b'' \<noteq> CHR ''u''"
      by (simp_all add: simple_escape_def)
    show ?thesis
      unfolding b e append_Cons
      by (simp only: unquote_simple [OF se nu] ih emit_Some append.simps)
  next
    case f
    have e: "escape (CHR 0x0C # cs) = CHR 0x5C # CHR ''f'' # escape cs"
      by (simp add: htmlSafe_def)
    have se: "simple_escape CHR ''f'' = Some (CHR 0x0C)" and nu: "CHR ''f'' \<noteq> CHR ''u''"
      by (simp_all add: simple_escape_def)
    show ?thesis
      unfolding f e append_Cons
      by (simp only: unquote_simple [OF se nu] ih emit_Some append.simps)
  next
    case n
    have e: "escape (CHR 0x0A # cs) = CHR 0x5C # CHR ''n'' # escape cs"
      by (simp add: htmlSafe_def)
    have se: "simple_escape CHR ''n'' = Some (CHR 0x0A)" and nu: "CHR ''n'' \<noteq> CHR ''u''"
      by (simp_all add: simple_escape_def)
    show ?thesis
      unfolding n e append_Cons
      by (simp only: unquote_simple [OF se nu] ih emit_Some append.simps)
  next
    case r
    have e: "escape (CHR 0x0D # cs) = CHR 0x5C # CHR ''r'' # escape cs"
      by (simp add: htmlSafe_def)
    have se: "simple_escape CHR ''r'' = Some (CHR 0x0D)" and nu: "CHR ''r'' \<noteq> CHR ''u''"
      by (simp_all add: simple_escape_def)
    show ?thesis
      unfolding r e append_Cons
      by (simp only: unquote_simple [OF se nu] ih emit_Some append.simps)
  next
    case t
    have e: "escape (CHR 0x09 # cs) = CHR 0x5C # CHR ''t'' # escape cs"
      by (simp add: htmlSafe_def)
    have se: "simple_escape CHR ''t'' = Some (CHR 0x09)" and nu: "CHR ''t'' \<noteq> CHR ''u''"
      by (simp_all add: simple_escape_def)
    show ?thesis
      unfolding t e append_Cons
      by (simp only: unquote_simple [OF se nu] ih emit_Some append.simps)
  next
    case u
    let ?b = "of_char c :: nat"
    from a ns u have e: "escape (c # cs) =
        CHR 0x5C # CHR ''u'' # CHR ''0'' # CHR ''0'' # hex (?b div 16) # hex (?b mod 16) # escape cs"
      by simp
    have g: "getu4 (CHR 0x5C # CHR ''u'' # CHR ''0'' # CHR ''0'' # hex (?b div 16) #
               hex (?b mod 16) # escape cs @ CHR 0x22 # rest) = Some ?b"
      using a by (rule getu4_ascii)
    from a have s: "\<not> IsSurrogate ?b" by (simp add: IsSurrogate_def)
    from a have en: "EncodeRune ?b = [c]" by (simp add: EncodeRune_width(1))
    have d: "drop 4 (CHR ''0'' # CHR ''0'' # hex (?b div 16) # hex (?b mod 16) #
               escape cs @ CHR 0x22 # rest) = escape cs @ CHR 0x22 # rest"
      by simp
    show ?thesis
      unfolding e append_Cons
      by (simp only: unquote_u [OF g s] d en ih emit_Some append.simps)
  qed
qed

lemma unquote_escape:
  "ValidString s \<Longrightarrow> unquote (escape s @ CHR 0x22 # rest) = Some (s, rest)"
proof (induction s rule: length_induct)
  case (1 s)
  show ?case
  proof (cases s)
    case Nil
    then show ?thesis by simp
  next
    case (Cons c cs)
    show ?thesis
    proof (cases "(of_char c :: nat) < 128")
      case True
      from "1.prems" have "ValidString cs"
        unfolding Cons ValidString_ascii [OF True] .
      with "1.IH" Cons have "unquote (escape cs @ CHR 0x22 # rest) = Some (cs, rest)"
        by simp
      with True show ?thesis unfolding Cons by (rule unquote_escape_ascii)
    next
      case False
      obtain r n where d: "DecodeRune (c # cs) = (r, n)"
        by (cases "DecodeRune (c # cs)")
      with "1.prems" Cons have v: "\<not> (r = RuneError \<and> n = 1)"
        and vd: "ValidString (drop n (c # cs))"
        by simp_all
      note dv = DecodeRune_valid [OF d v False]
      from dv(4) have "length (drop n (c # cs)) < length s" unfolding Cons by simp
      with "1.IH" vd
      have ih: "unquote (escape (drop n (c # cs)) @ CHR 0x22 # rest) = Some (drop n (c # cs), rest)"
        by simp
      have id: "take n (c # cs) @ drop n (c # cs) = c # cs" by (rule append_take_drop_id)
      show ?thesis
      proof (cases "r = 8232 \<or> r = 8233")
        case True
        with d False v have e: "escape (c # cs) =
            CHR 0x5C # CHR ''u'' # CHR ''2'' # CHR ''0'' # CHR ''2'' # hex (r mod 16) #
            escape (drop n (c # cs))"
          by auto
        from True have "hex (r mod 16) = CHR ''8'' \<and> r = 8232 \<or>
                        hex (r mod 16) = CHR ''9'' \<and> r = 8233"
          by (auto simp: hex_def)
        then have g: "getu4 (CHR 0x5C # CHR ''u'' # CHR ''2'' # CHR ''0'' # CHR ''2'' #
             hex (r mod 16) # escape (drop n (c # cs)) @ CHR 0x22 # rest) = Some r"
          using getu4_2028 by metis
        from True have s: "\<not> IsSurrogate r" by (auto simp: IsSurrogate_def)
        have dr: "drop 4 (CHR ''2'' # CHR ''0'' # CHR ''2'' # hex (r mod 16) #
               escape (drop n (c # cs)) @ CHR 0x22 # rest) =
               escape (drop n (c # cs)) @ CHR 0x22 # rest"
          by simp
        show ?thesis
          unfolding Cons e append_Cons
          by (simp only: unquote_u [OF g s] dr ih emit_Some dv(1) id)
      next
        case nl: False
        with d False v have e: "escape (c # cs) = take n (c # cs) @ escape (drop n (c # cs))"
          by auto
        from dv(4) obtain p where p: "take n (c # cs) = c # p"
          by (cases n) auto
        let ?t = "escape (drop n (c # cs)) @ CHR 0x22 # rest"
        from dv(2) [of ?t] have d': "DecodeRune (c # (p @ ?t)) = (r, n)"
          unfolding p by simp
        from dv(3) have dr: "drop n (c # (p @ ?t)) = ?t"
          unfolding p by (metis append_Cons append_eq_conv_conj)
        have "unquote (c # (p @ ?t)) = Some (c # cs, rest)"
          by (simp only: unquote_multibyte [OF False d'] dr ih emit_Some dv(1) id)
        then show ?thesis
          unfolding Cons e p by simp
      qed
    qed
  qed
qed

subsection \<open>The text of a ServiceKey is read back\<close>


lemma tokens_Nil: "tokens [] = Some []"
  by (simp add: tokens.simps skip_space_def)

lemma tokens_Cons:
  "tokens (c # cs) =
     (if isSpace c then tokens cs
      else if c = CHR ''{'' then push LBrace (tokens cs)
      else if c = CHR ''}'' then push RBrace (tokens cs)
      else if c = CHR ''['' then push LBracket (tokens cs)
      else if c = CHR '']'' then push RBracket (tokens cs)
      else if c = CHR '':'' then push Colon (tokens cs)
      else if c = CHR '','' then push Comma (tokens cs)
      else if c = CHR 0x22 then
        (case unquote cs of
           None \<Rightarrow> None
         | Some (t, r) \<Rightarrow> push (TString t) (tokens r))
      else if c = CHR ''t'' then
        (case strip_literal ''true'' (c # cs) of
           None \<Rightarrow> None
         | Some r \<Rightarrow> push TTrue (tokens r))
      else if c = CHR ''f'' then
        (case strip_literal ''false'' (c # cs) of
           None \<Rightarrow> None
         | Some r \<Rightarrow> push TFalse (tokens r))
      else if c = CHR ''n'' then
        (case strip_literal ''null'' (c # cs) of
           None \<Rightarrow> None
         | Some r \<Rightarrow> push TNull (tokens r))
      else
        (case scan_number (c # cs) of
           None \<Rightarrow> None
         | Some (lit, r) \<Rightarrow> push (TNumber lit) (tokens r)))"
proof (cases "isSpace c")
  case True
  then have "skip_space (c # cs) = skip_space cs" by (simp add: skip_space_def)
  then have "tokens (c # cs) = tokens cs"
    by (subst tokens.simps, subst (2) tokens.simps) simp
  with True show ?thesis by simp
next
  case False
  then have "skip_space (c # cs) = c # cs" by (simp add: skip_space_def)
  with False show ?thesis
    by (subst tokens.simps) simp
qed

lemma tokens_string:
  assumes "ValidString s"
  shows "tokens (appendString s @ rest) = push (TString s) (tokens rest)"
proof -
  have "tokens (CHR 0x22 # (escape s @ CHR 0x22 # rest)) = push (TString s) (tokens rest)"
    by (subst tokens_Cons) (simp add: isSpace_def unquote_escape [OF assms])
  then show ?thesis by (simp add: appendString_def)
qed

lemma tokens_punct:
  "tokens (CHR ''{'' # cs) = push LBrace (tokens cs)"
  "tokens (CHR ''}'' # cs) = push RBrace (tokens cs)"
  "tokens (CHR '':'' # cs) = push Colon (tokens cs)"
  "tokens (CHR '','' # cs) = push Comma (tokens cs)"
  by (simp_all add: tokens_Cons isSpace_def)

lemma ValidString_names:
  "ValidString ''url''" "ValidString ''client_id''" "ValidString ''client_secret''"
  "ValidString ''oauth_url''"
  by (simp_all del: ValidString.simps add: ValidString_ascii ValidString.simps(1))

lemma Marshal_ServiceKey_text:
  "Marshal_ServiceKey k =
     CHR ''{'' # appendString ''url'' @ CHR '':'' # appendString (Url k) @
     CHR '','' # appendString ''client_id'' @ CHR '':'' # appendString (ClientId k) @
     CHR '','' # appendString ''client_secret'' @ CHR '':'' # appendString (ClientSecret k) @
     CHR '','' # appendString ''oauth_url'' @ CHR '':'' # appendString (OauthUrl k) @
     [CHR ''}'']"
  by (simp add: Marshal_ServiceKey_def ServiceKey_members_def)

lemma tokens_Marshal_ServiceKey:
  assumes "valid_ServiceKey k"
  shows "tokens (Marshal_ServiceKey k) =
     Some [LBrace, TString ''url'', Colon, TString (Url k), Comma,
           TString ''client_id'', Colon, TString (ClientId k), Comma,
           TString ''client_secret'', Colon, TString (ClientSecret k), Comma,
           TString ''oauth_url'', Colon, TString (OauthUrl k), RBrace]"
proof -
  from assms have v: "ValidString (Url k)" "ValidString (ClientId k)"
    "ValidString (ClientSecret k)" "ValidString (OauthUrl k)"
    by (simp_all add: valid_ServiceKey_def)
  show ?thesis
    unfolding Marshal_ServiceKey_text
    by (simp only: tokens_punct tokens_string [OF v(1)] tokens_string [OF v(2)]
          tokens_string [OF v(3)] tokens_string [OF v(4)]
          tokens_string [OF ValidString_names(1)] tokens_string [OF ValidString_names(2)]
          tokens_string [OF ValidString_names(3)] tokens_string [OF ValidString_names(4)]
          tokens_Nil push_def option.case)
qed

lemma json_parse_Marshal_ServiceKey:
  assumes "valid_ServiceKey k"
  shows "json_parse (Marshal_ServiceKey k) = Some (JObject (ServiceKey_members k))"
  by (simp add: json_parse_def tokens_Marshal_ServiceKey [OF assms] step_def begin_value_def
        begin_string_def end_value_def maxNestingDepth_def ServiceKey_members_def)

lemma lookup_ServiceKey_fields:
  "lookup_field ServiceKey_fields ''url'' = Some ''url''"
  "lookup_field ServiceKey_fields ''client_id'' = Some ''client_id''"
  "lookup_field ServiceKey_fields ''client_secret'' = Some ''client_secret''"
  "lookup_field ServiceKey_fields ''oauth_url'' = Some ''oauth_url''"
  by (simp_all add: lookup_field_def ServiceKey_fields_def)

lemma object_into_ServiceKey_members:
  "object_into ServiceKey_store ServiceKey_fields (ServiceKey_members k) (k0, None) = (k, None)"
  by (cases k)
     (simp add: ServiceKey_members_def lookup_ServiceKey_fields ServiceKey_store_def
        store_string_def saveError_def)



lemma valid_mock_ServiceKey: "valid_ServiceKey mock_ServiceKey"
  by (simp add: valid_ServiceKey_def mock_ServiceKey_def DecodeRune_def first_def Let_def
        continuation_def RuneError_def)

lemma Marshal_mock_ServiceKey:
  \<open>Marshal_ServiceKey mock_ServiceKey =
     ''{"url":"https://ans.example/a?b='' @ CHR 0x5C # ''u003cc'' @ CHR 0x5C # ''u003e'' @
     CHR 0x5C # ''u0026d='' @ CHR 0x5C # ''"e'' @ CHR 0x5C # ''"","client_id":"caf'' @
     [CHR 0xC3, CHR 0xA9] @ ''","client_secret":"s3cr'' @ CHR 0x5C # CHR 0x5C # CHR 0x5C #
     ''net","oauth_url":""}''\<close>
  by (simp add: Marshal_ServiceKey_def ServiceKey_members_def mock_ServiceKey_def
        appendString_def htmlSafe_def hex_def DecodeRune_def first_def Let_def
        continuation_def RuneError_def)

lemmas parse_eval =
  json_parse_def tokens_Cons tokens_Nil isSpace_def push_def emit_def simple_escape_def
  strip_literal_def scan_number_def scan_int_def scan_frac_def scan_exp_def digits1_def
  isDigit_def step_def begin_value_def begin_string_def end_value_def maxNestingDepth_def

lemma json_parse_truncated: \<open>json_parse ''{"url": "x"'' = None\<close>
  by (simp add: parse_eval)

lemma json_parse_array: \<open>json_parse ''["x"]'' = Some (JArray [JString ''x''])\<close>
  by (simp add: parse_eval)

subsection \<open>The claim about UnmarshallServiceKeyJSON\<close>

text \<open>
  C6: for every ServiceKey whose strings are well-formed UTF-8, UnmarshallServiceKeyJSON
  applied to the text that json.Marshal writes for it returns that ServiceKey and no
  error. Applied to a text that is not JSON it returns an error that wraps the
  SyntaxError of json.Unmarshal; applied to a JSON value that is neither an object nor
  null it returns an error that wraps an UnmarshalTypeError.
\<close>

theorem ServiceKey_round_trip:
  "(valid_ServiceKey k \<longrightarrow> UnmarshallServiceKeyJSON (Marshal_ServiceKey k) = (k, None)) \<and>
   (json_parse s = None \<longrightarrow>
      UnmarshallServiceKeyJSON s =
        (zero_ServiceKey, Some (WithMessage SyntaxError ''error unmarshalling ANS serviceKey''))) \<and>
   (\<forall>v. json_parse s = Some v \<longrightarrow> v \<noteq> JNull \<longrightarrow> (\<forall>ms. v \<noteq> JObject ms) \<longrightarrow>
      UnmarshallServiceKeyJSON s =
        (zero_ServiceKey,
         Some (WithMessage (UnmarshalTypeError (json_kind v) ''ans.ServiceKey'')
                 ''error unmarshalling ANS serviceKey'')))"
proof (intro conjI impI allI)
  assume "valid_ServiceKey k"
  then show "UnmarshallServiceKeyJSON (Marshal_ServiceKey k) = (k, None)"
    by (simp add: UnmarshallServiceKeyJSON_def Unmarshal_ServiceKey_def
          json_parse_Marshal_ServiceKey object_into_ServiceKey_members)
next
  assume "json_parse s = None"
  then show "UnmarshallServiceKeyJSON s =
        (zero_ServiceKey, Some (WithMessage SyntaxError ''error unmarshalling ANS serviceKey''))"
    by (simp add: UnmarshallServiceKeyJSON_def Unmarshal_ServiceKey_def)
next
  fix v
  assume "json_parse s = Some v" "v \<noteq> JNull" "\<forall>ms. v \<noteq> JObject ms"
  then show "UnmarshallServiceKeyJSON s =
        (zero_ServiceKey,
         Some (WithMessage (UnmarshalTypeError (json_kind v) ''ans.ServiceKey'')
                 ''error unmarshalling ANS serviceKey''))"
    by (cases v) (simp_all add: UnmarshallServiceKeyJSON_def Unmarshal_ServiceKey_def)
qed

theorem ServiceKey_round_trip_witness:
  \<open>valid_ServiceKey mock_ServiceKey \<and>
   UnmarshallServiceKeyJSON (Marshal_ServiceKey mock_ServiceKey) = (mock_ServiceKey, None) \<and>
   json_parse ''{"url": "x"'' = None \<and>
   UnmarshallServiceKeyJSON ''{"url": "x"'' =
     (zero_ServiceKey, Some (WithMessage SyntaxError ''error unmarshalling ANS serviceKey'')) \<and>
   UnmarshallServiceKeyJSON ''["x"]'' =
     (zero_ServiceKey,
      Some (WithMessage (UnmarshalTypeError ''array'' ''ans.ServiceKey'')
              ''error unmarshalling ANS serviceKey''))\<close>
proof -
  note t = ServiceKey_round_trip [of mock_ServiceKey \<open>''{"url": "x"''\<close>]
  note a = ServiceKey_round_trip [of mock_ServiceKey \<open>''["x"]''\<close>]
  from t a valid_mock_ServiceKey json_parse_truncated json_parse_array show ?thesis
    by (simp add: json_kind_def)
qed

end
